theory Spec2Isabelle
  imports Complex_Main "HOL-Library.Word"
begin

unbundle bit_operations_syntax

section \<open>Bytes, exceptions and the library primitives\<close>

text \<open>
  A Python byte (an element of \<open>bytes\<close>, \<open>bytearray\<close> or a list of ints in 0..255) is
  an 8-bit word; a byte sequence is a list. The exceptions the two source files can
  raise are values of \<open>error\<close>.
\<close>

type_synonym byte = "8 word"
type_synonym bytes = "byte list"

datatype error =
    ValueError
  | AttributeError
  | AssertionError
  | TypeError
  | OverflowError
  | UnboundLocalError
  | IndexError

text \<open>
  The cryptographic primitives come from PyCryptodome and are parameters of the model.
  \<open>aes key data\<close> stands for \<open>AES.new(bytes(key), AES.MODE_ECB).encrypt(bytes(data))\<close>
  and \<open>kmac key data\<close> for \<open>KMAC128.new(key=bytes(key), mac_len=32)\<close> followed by
  \<open>update(bytes(data))\<close> and \<open>digest()\<close>; both may raise (the library checks the lengths
  of key and data).
\<close>

type_synonym cipher = "bytes \<Rightarrow> bytes \<Rightarrow> error + bytes"

section \<open>util/data_generator.py\<close>

subsection \<open>Class attributes\<close>

definition key_generation :: bytes where
  "key_generation = [0x12, 0x34, 0x56, 0x78, 0x9A, 0xBC, 0xDE, 0xF1, 0x23,
                     0x45, 0x67, 0x89, 0xAB, 0xCD, 0xE0, 0xF0]"

definition class_text_fixed :: bytes where
  "class_text_fixed = [0xAA, 0xAA, 0xAA, 0xAA, 0xAA, 0xAA, 0xAA, 0xAA, 0xAA, 0xAA,
                       0xAA, 0xAA, 0xAA, 0xAA, 0xAA, 0xAA]"

definition class_text_random :: bytes where
  "class_text_random = [0xCC, 0xCC, 0xCC, 0xCC, 0xCC, 0xCC, 0xCC, 0xCC, 0xCC, 0xCC,
                        0xCC, 0xCC, 0xCC, 0xCC, 0xCC, 0xCC]"

definition class_key_fixed :: bytes where
  "class_key_fixed = [0x81, 0x1E, 0x37, 0x31, 0xB0, 0x12, 0x0A, 0x78, 0x42, 0x78,
                      0x1E, 0x22, 0xB2, 0x5C, 0xDD, 0xF9]"

definition class_key_random :: bytes where
  "class_key_random = [0x53, 0x53, 0x53, 0x53, 0x53, 0x53, 0x53, 0x53, 0x53, 0x53,
                       0x53, 0x53, 0x53, 0x53, 0x53, 0x53]"

subsection \<open>The instance\<close>

text \<open>
  An instance of \<open>data_generator\<close> holds only what has been assigned through \<open>self\<close>:
  \<open>__init__\<close> assigns \<open>cipher_gen\<close> and nothing else, so each of the four data
  attributes is absent from the instance (\<open>None\<close>) until \<open>set_start\<close> or an advance
  operation assigns it. Reading \<open>self.text_fixed\<close> takes the instance attribute when
  there is one and the class attribute otherwise. The cipher object \<open>cipher_gen\<close> is
  represented by its key.
\<close>

record data_generator =
  inst_text_fixed :: "bytes option"
  inst_text_random :: "bytes option"
  inst_key_fixed :: "bytes option"
  inst_key_random :: "bytes option"
  cipher_gen :: bytes

definition self_text_fixed :: "data_generator \<Rightarrow> bytes" where
  "self_text_fixed s = (case inst_text_fixed s of Some v \<Rightarrow> v | None \<Rightarrow> class_text_fixed)"

definition self_text_random :: "data_generator \<Rightarrow> bytes" where
  "self_text_random s = (case inst_text_random s of Some v \<Rightarrow> v | None \<Rightarrow> class_text_random)"

definition self_key_fixed :: "data_generator \<Rightarrow> bytes" where
  "self_key_fixed s = (case inst_key_fixed s of Some v \<Rightarrow> v | None \<Rightarrow> class_key_fixed)"

definition self_key_random :: "data_generator \<Rightarrow> bytes" where
  "self_key_random s = (case inst_key_random s of Some v \<Rightarrow> v | None \<Rightarrow> class_key_random)"

text \<open>\<open>data_generator()\<close>: the constructor, lines 26-27.\<close>

definition data_generator_init :: data_generator where
  "data_generator_init =
     \<lparr>inst_text_fixed = None, inst_text_random = None,
      inst_key_fixed = None, inst_key_random = None,
      cipher_gen = key_generation\<rparr>"

definition set_start :: "data_generator \<Rightarrow> data_generator" where
  "set_start s =
     s\<lparr>inst_text_fixed := Some [0xAA, 0xAA, 0xAA, 0xAA, 0xAA, 0xAA, 0xAA, 0xAA, 0xAA,
                               0xAA, 0xAA, 0xAA, 0xAA, 0xAA, 0xAA, 0xAA],
       inst_text_random := Some [0xCC, 0xCC, 0xCC, 0xCC, 0xCC, 0xCC, 0xCC, 0xCC,
                                0xCC, 0xCC, 0xCC, 0xCC, 0xCC, 0xCC, 0xCC, 0xCC],
       inst_key_fixed := Some [0x81, 0x1E, 0x37, 0x31, 0xB0, 0x12, 0x0A, 0x78, 0x42,
                              0x78, 0x1E, 0x22, 0xB2, 0x5C, 0xDD, 0xF9],
       inst_key_random := Some [0x53, 0x53, 0x53, 0x53, 0x53, 0x53, 0x53, 0x53,
                               0x53, 0x53, 0x53, 0x53, 0x53, 0x53, 0x53, 0x53]\<rparr>"

subsection \<open>Advancing and reading\<close>

text \<open>
  Every method returns the instance it leaves behind next to its result, also when it
  raises: an exception in the second assignment of \<open>advance_random\<close> leaves the first
  one done.
\<close>

definition advance_fixed :: "cipher \<Rightarrow> data_generator \<Rightarrow> error option \<times> data_generator" where
  "advance_fixed aes s =
     (case aes (cipher_gen s) (self_text_fixed s) of
        Inl e \<Rightarrow> (Some e, s)
      | Inr c \<Rightarrow> (None, s\<lparr>inst_text_fixed := Some c\<rparr>))"

definition advance_random :: "cipher \<Rightarrow> data_generator \<Rightarrow> error option \<times> data_generator" where
  "advance_random aes s =
     (case aes (cipher_gen s) (self_text_random s) of
        Inl e \<Rightarrow> (Some e, s)
      | Inr c \<Rightarrow>
          (let s1 = s\<lparr>inst_text_random := Some c\<rparr> in
           case aes (cipher_gen s1) (self_key_random s1) of
             Inl e \<Rightarrow> (Some e, s1)
           | Inr k \<Rightarrow> (None, s1\<lparr>inst_key_random := Some k\<rparr>)))"

text \<open>The result of a \<open>get_\<close> method is the triple \<open>(pt, ct, key)\<close>.\<close>

type_synonym dg_result = "error + bytes \<times> bytes \<times> bytes"

definition get_fixed :: "cipher \<Rightarrow> data_generator \<Rightarrow> dg_result \<times> data_generator" where
  "get_fixed aes s =
     (let pt = self_text_fixed s; key = self_key_fixed s in
      case aes (self_key_fixed s) (self_text_fixed s) of
        Inl e \<Rightarrow> (Inl e, s)
      | Inr ct \<Rightarrow>
          (case advance_fixed aes s of
             (Some e, s') \<Rightarrow> (Inl e, s')
           | (None, s') \<Rightarrow> (Inr (pt, ct, key), s')))"

definition get_random :: "cipher \<Rightarrow> data_generator \<Rightarrow> dg_result \<times> data_generator" where
  "get_random aes s =
     (let pt = self_text_random s; key = self_key_random s in
      case aes (self_key_random s) (self_text_random s) of
        Inl e \<Rightarrow> (Inl e, s)
      | Inr ct \<Rightarrow>
          (case advance_random aes s of
             (Some e, s') \<Rightarrow> (Inl e, s')
           | (None, s') \<Rightarrow> (Inr (pt, ct, key), s')))"

definition get_kmac_fixed ::
  "cipher \<Rightarrow> cipher \<Rightarrow> data_generator \<Rightarrow> dg_result \<times> data_generator" where
  "get_kmac_fixed aes kmac s =
     (let pt = self_text_fixed s; key = self_key_fixed s in
      case kmac (self_key_fixed s) (self_text_fixed s) of
        Inl e \<Rightarrow> (Inl e, s)
      | Inr ct \<Rightarrow>
          (case advance_fixed aes s of
             (Some e, s') \<Rightarrow> (Inl e, s')
           | (None, s') \<Rightarrow> (Inr (pt, ct, key), s')))"

definition get_kmac_random ::
  "cipher \<Rightarrow> cipher \<Rightarrow> data_generator \<Rightarrow> dg_result \<times> data_generator" where
  "get_kmac_random aes kmac s =
     (let pt = self_text_random s; key = self_key_random s in
      case kmac (self_key_random s) (self_text_random s) of
        Inl e \<Rightarrow> (Inl e, s)
      | Inr ct \<Rightarrow>
          (case advance_random aes s of
             (Some e, s') \<Rightarrow> (Inl e, s')
           | (None, s') \<Rightarrow> (Inr (pt, ct, key), s')))"

subsection \<open>Sequences of calls\<close>

text \<open>
  The module exports the four \<open>get_\<close> methods of one shared instance. A sequence of
  calls runs in order and stops at the first exception; what the caller sees is the list
  of results.
\<close>

datatype dg_method = GetFixed | GetRandom | GetKmacFixed | GetKmacRandom

fun dg_call :: "cipher \<Rightarrow> cipher \<Rightarrow> dg_method \<Rightarrow> data_generator \<Rightarrow> dg_result \<times> data_generator" where
  "dg_call aes kmac GetFixed s = get_fixed aes s"
| "dg_call aes kmac GetRandom s = get_random aes s"
| "dg_call aes kmac GetKmacFixed s = get_kmac_fixed aes kmac s"
| "dg_call aes kmac GetKmacRandom s = get_kmac_random aes kmac s"

fun replay ::
  "cipher \<Rightarrow> cipher \<Rightarrow> dg_method list \<Rightarrow> data_generator \<Rightarrow> dg_result list \<times> data_generator" where
  "replay aes kmac [] s = ([], s)"
| "replay aes kmac (c # cs) s =
     (case dg_call aes kmac c s of
        (Inl e, s') \<Rightarrow> ([Inl e], s')
      | (Inr out, s') \<Rightarrow>
          (case replay aes kmac cs s' of (outs, s'') \<Rightarrow> (Inr out # outs, s'')))"

text \<open>What the methods read: the four data attributes as \<open>self\<close> sees them.\<close>

definition fixed_random_state :: "data_generator \<Rightarrow> bytes \<times> bytes \<times> bytes \<times> bytes" where
  "fixed_random_state s =
     (self_text_fixed s, self_text_random s, self_key_fixed s, self_key_random s)"

section \<open>capture/capture_sha3.py\<close>

subsection \<open>Collaborators and stored traces\<close>

text \<open>
  What \<open>capture\<close> takes from outside the repository's two files:
  \<^item> \<open>sha3_256 p\<close> is \<open>SHA3_256.new(bytes(p)).digest()\<close>;
  \<^item> \<open>randint k\<close> is the value of the \<open>k\<close>-th call \<open>random.randint(0, 255)\<close> made
    since \<open>capture\<close> started (the host's pseudo-random generator is a stream of bytes);
  \<^item> \<open>capture_and_transfer_waves n\<close> is the block of waves (one row per segment) that the
    scope hands over in the \<open>n\<close>-th arm/trigger cycle;
  \<^item> \<open>read_ciphertext n len\<close> is what \<open>ot_sha3.read_ciphertext(len)\<close> returns in the
    \<open>n\<close>-th cycle: the bytes the device reports.
\<close>

record collaborators =
  sha3_256 :: "bytes \<Rightarrow> bytes"
  randint :: "nat \<Rightarrow> byte"
  capture_and_transfer_waves :: "nat \<Rightarrow> nat list list"
  read_ciphertext :: "nat \<Rightarrow> int \<Rightarrow> bytes"

text \<open>One call of \<open>project.append_trace(wave, plaintext, ciphertext, key)\<close>.\<close>

record trace =
  trace_wave :: "nat list"
  trace_plaintext :: bytes
  trace_ciphertext :: bytes
  trace_key :: "bytes option"

text \<open>The commands sent to the scope and to the device, in the order of the calls.\<close>

datatype io_event =
    Arm
  | FvsrFixedMsgSet bytes
  | AbsorbBatch bytes
  | Absorb bytes
  | CaptureWaves
  | ReadCiphertext int

subsection \<open>Python helpers\<close>

text \<open>\<open>n\<close> successive calls of \<open>random.randint(0, 255)\<close>, the first of them the \<open>k\<close>-th.\<close>

definition randint_bytes :: "collaborators \<Rightarrow> nat \<Rightarrow> nat \<Rightarrow> bytes" where
  "randint_bytes env k n = map (randint env) [k ..< k + n]"

text \<open>\<open>n.to_bytes(4, "little")\<close> raises OverflowError outside \<open>0 .. 2^32 - 1\<close>.\<close>

definition to_bytes4_little :: "int \<Rightarrow> error + bytes" where
  "to_bytes4_little n =
     (if n < 0 \<or> 2 ^ 32 \<le> n then Inl OverflowError
      else Inr (map (\<lambda>k. word_of_int (n div 2 ^ (8 * k))) [0, 1, 2, 3]))"

text \<open>The slice \<open>xs[0:n]\<close>; a negative \<open>n\<close> counts from the end.\<close>

definition slice0 :: "'a list \<Rightarrow> int \<Rightarrow> 'a list" where
  "slice0 xs n = (if 0 \<le> n then take (nat n) xs else take (nat (int (length xs) + n)) xs)"

subsection \<open>generate_ref_crypto\<close>

text \<open>
  Lines 173-229. The function returns \<open>(plaintext, ciphertext, sample_fixed)\<close>; the model
  also takes and returns the number of \<open>randint\<close> calls made so far.

  In the first branch (\<open>sha3_fvsr_data\<close>, not batch) the source calls
  \<open>dg.get_sha3_fixed()\<close> or \<open>dg.get_sha3_random()\<close>, where \<open>dg\<close> is the module
  \<open>util/data_generator.py\<close>. That module binds \<open>data_generator\<close>, \<open>_inst\<close>,
  \<open>set_start\<close>, \<open>get_fixed\<close>, \<open>get_random\<close>, \<open>get_kmac_fixed\<close> and
  \<open>get_kmac_random\<close> (and the imported \<open>np\<close>, \<open>AES\<close>, \<open>KMAC128\<close>) and nothing else, so
  either attribute lookup raises AttributeError before anything is called.
\<close>

definition generate_ref_crypto ::
  "collaborators \<Rightarrow> int \<Rightarrow> string \<Rightarrow> bool \<Rightarrow> bytes \<Rightarrow> bytes \<Rightarrow> int \<Rightarrow> nat
     \<Rightarrow> (error + bytes \<times> bytes \<times> int) \<times> nat" where
  "generate_ref_crypto env sample_fixed mode batch plaintext plaintext_fixed text_len_bytes k =
     (if mode = ''sha3_fvsr_data'' \<and> \<not> batch then
        (if sample_fixed \<noteq> 0 then (Inl AttributeError, k)
         else (Inl AttributeError, k))
      else if mode = ''sha3_random'' then
        (Inr (plaintext, sha3_256 env plaintext, sample_fixed), k)
      else
        (let n = (if sample_fixed \<noteq> 0 then 0 else nat text_len_bytes);
             plaintext' = (if sample_fixed \<noteq> 0 then plaintext_fixed
                           else randint_bytes env k n);
             dummy_plaintext = randint_bytes env (k + n) 16
         in (Inr (plaintext', sha3_256 env plaintext',
                  uint (dummy_plaintext ! 0 AND 1)),
             k + n + 16)))"

subsection \<open>check_ciphertext\<close>

text \<open>
  Lines 232-249. The first argument is the value that \<open>ot_sha3.read_ciphertext\<close> returned,
  taken to be a sequence of byte values like the expected one, so that \<open>==\<close> compares
  them byte by byte. Slicing \<open>None\<close> raises TypeError; the \<open>assert\<close> raises
  AssertionError.
\<close>

definition check_ciphertext :: "bytes \<Rightarrow> bytes option \<Rightarrow> int \<Rightarrow> error option" where
  "check_ciphertext actual_last_ciphertext expected_last_ciphertext ciphertext_len =
     (case expected_last_ciphertext of
        None \<Rightarrow> Some TypeError
      | Some e \<Rightarrow>
          if actual_last_ciphertext = slice0 e ciphertext_len then None
          else Some AssertionError)"

subsection \<open>capture\<close>

text \<open>The dataclass of lines 50-62.\<close>

record CaptureConfig =
  capture_mode :: string
  batch_mode :: bool
  num_traces :: int
  num_segments :: int
  output_len :: int
  text_fixed :: bytes
  text_len_bytes :: int
  protocol :: string
  port :: "string option"

text \<open>
  The local variables of \<open>capture\<close> (\<open>text_var\<close> is the local \<open>text\<close>; a local that is
  not bound yet is \<open>None\<close>), the number of \<open>randint\<close> calls made, the number of
  cycles started, the traces appended to the project and the commands sent. The progress
  bar, the handler for the interrupt signal and \<open>project.optimize_capture\<close> with its
  counter \<open>num_segments_storage\<close> touch none of these and are left out.
\<close>

record capture_state =
  text_var :: bytes
  ciphertext :: "bytes option"
  plaintext :: "bytes option"
  sample_fixed :: int
  expected_ciphertext :: "bytes option"
  remaining_num_traces :: int
  rng_calls :: nat
  cycle :: nat
  project :: "trace list"
  target_log :: "io_event list"

text \<open>
  The call of \<open>generate_ref_crypto\<close> with its assignment to
  \<open>text, ciphertext, sample_fixed\<close>: lines 299-306 and, word for word, lines 316-323.
\<close>

definition call_generate_ref_crypto ::
  "collaborators \<Rightarrow> CaptureConfig \<Rightarrow> capture_state \<Rightarrow> error option \<times> capture_state" where
  "call_generate_ref_crypto env cfg st =
     (case generate_ref_crypto env (sample_fixed st) (capture_mode cfg) (batch_mode cfg)
             (text_var st) (text_fixed cfg) (text_len_bytes cfg) (rng_calls st) of
        (Inl e, k) \<Rightarrow> (Some e, st\<lparr>rng_calls := k\<rparr>)
      | (Inr (t, c, sf), k) \<Rightarrow>
          (None, st\<lparr>text_var := t, ciphertext := Some c, sample_fixed := sf,
                    rng_calls := k\<rparr>))"

text \<open>Lines 292-307: trigger the device.\<close>

definition trigger ::
  "collaborators \<Rightarrow> CaptureConfig \<Rightarrow> capture_state \<Rightarrow> error option \<times> capture_state" where
  "trigger env cfg st =
     (if batch_mode cfg then
        (case to_bytes4_little (num_segments cfg) of
           Inl e \<Rightarrow> (Some e, st)
         | Inr b \<Rightarrow> (None, st\<lparr>target_log := target_log st @ [AbsorbBatch b]\<rparr>))
      else
        (case (if capture_mode cfg = ''sha3_fvsr_data''
               then call_generate_ref_crypto env cfg st else (None, st)) of
           (Some e, st') \<Rightarrow> (Some e, st')
         | (None, st') \<Rightarrow>
             (None, st'\<lparr>target_log := target_log st' @ [Absorb (text_var st')]\<rparr>)))"

text \<open>
  Lines 337-344: the new value of \<open>expected_ciphertext\<close>. \<open>zip\<close> stops at the shorter
  of its two arguments.
\<close>

definition fold_expected :: "bool \<Rightarrow> bytes option \<Rightarrow> bytes \<Rightarrow> bytes" where
  "fold_expected batch expected c =
     (if batch then (case expected of None \<Rightarrow> c | Some e \<Rightarrow> map2 (XOR) c e)
      else c)"

text \<open>
  Lines 315-344: the body of the loop over the segments, for segment \<open>i\<close>. The bytes
  drawn in \<open>sha3_random\<close> mode are assigned to the local \<open>plaintext\<close>.
\<close>

definition segment ::
  "collaborators \<Rightarrow> CaptureConfig \<Rightarrow> nat list list \<Rightarrow> nat \<Rightarrow> capture_state
     \<Rightarrow> error option \<times> capture_state" where
  "segment env cfg waves i st =
     (case (if batch_mode cfg \<or> capture_mode cfg = ''sha3_random''
            then call_generate_ref_crypto env cfg st else (None, st)) of
        (Some e, st1) \<Rightarrow> (Some e, st1)
      | (None, st1) \<Rightarrow>
          if length waves \<le> i then (Some IndexError, st1)
          else if \<not> 1 \<le> length (waves ! i) then (Some AssertionError, st1)
          else
            (case ciphertext st1 of
               None \<Rightarrow> (Some UnboundLocalError, st1)
             | Some c \<Rightarrow>
                 (let st2 = st1\<lparr>project := project st1 @
                              [\<lparr>trace_wave = waves ! i, trace_plaintext = text_var st1,
                                trace_ciphertext = c, trace_key = None\<rparr>]\<rparr>;
                      st3 = (if capture_mode cfg = ''sha3_random''
                             then st2\<lparr>plaintext := Some (randint_bytes env (rng_calls st2) 16),
                                      rng_calls := rng_calls st2 + 16\<rparr>
                             else st2)
                  in (None, st3\<lparr>expected_ciphertext :=
                                   Some (fold_expected (batch_mode cfg)
                                           (expected_ciphertext st3) c)\<rparr>))))"

text \<open>Line 314: \<open>for i in range(capture_cfg.num_segments)\<close>, over the list of indices.\<close>

fun segment_loop ::
  "collaborators \<Rightarrow> CaptureConfig \<Rightarrow> nat list list \<Rightarrow> nat list \<Rightarrow> capture_state
     \<Rightarrow> error option \<times> capture_state" where
  "segment_loop env cfg waves [] st = (None, st)"
| "segment_loop env cfg waves (i # is) st =
     (case segment env cfg waves i st of
        (Some e, st') \<Rightarrow> (Some e, st')
      | (None, st') \<Rightarrow> segment_loop env cfg waves is st')"

text \<open>Lines 289-344: one cycle up to the end of the loop over the segments.\<close>

definition capture_segments ::
  "collaborators \<Rightarrow> CaptureConfig \<Rightarrow> capture_state \<Rightarrow> error option \<times> capture_state" where
  "capture_segments env cfg st =
     (case trigger env cfg (st\<lparr>target_log := target_log st @ [Arm],
                                cycle := Suc (cycle st)\<rparr>) of
        (Some e, st1) \<Rightarrow> (Some e, st1)
      | (None, st1) \<Rightarrow>
          (let waves = capture_and_transfer_waves env (cycle st);
               st2 = st1\<lparr>target_log := target_log st1 @ [CaptureWaves]\<rparr>
           in if int (length waves) \<noteq> num_segments cfg then (Some AssertionError, st2)
              else segment_loop env cfg waves [0 ..< nat (num_segments cfg)]
                     (st2\<lparr>expected_ciphertext := None\<rparr>)))"

text \<open>
  Lines 289-355: one whole cycle, with the check of the device's answer and the update of
  the loop variable.
\<close>

definition capture_cycle ::
  "collaborators \<Rightarrow> CaptureConfig \<Rightarrow> capture_state \<Rightarrow> error option \<times> capture_state" where
  "capture_cycle env cfg st =
     (case capture_segments env cfg st of
        (Some e, st3) \<Rightarrow> (Some e, st3)
      | (None, st3) \<Rightarrow>
          (let st4 = st3\<lparr>target_log := target_log st3 @ [ReadCiphertext (output_len cfg)]\<rparr>
           in case check_ciphertext (read_ciphertext env (cycle st) (output_len cfg))
                     (expected_ciphertext st4) (output_len cfg) of
                Some e \<Rightarrow> (Some e, st4)
              | None \<Rightarrow>
                  (None, st4\<lparr>remaining_num_traces :=
                                remaining_num_traces st4 - num_segments cfg\<rparr>)))"

subsection \<open>What one cycle leaves unchanged, and what a completed cycle has done\<close>

lemma call_generate_ref_crypto_frame:
  "call_generate_ref_crypto env cfg st = (r, st') \<Longrightarrow>
     remaining_num_traces st' = remaining_num_traces st \<and> cycle st' = cycle st
     \<and> project st' = project st \<and> target_log st' = target_log st
     \<and> expected_ciphertext st' = expected_ciphertext st \<and> plaintext st' = plaintext st"
  by (auto simp: call_generate_ref_crypto_def split: prod.splits sum.splits)

lemma segment_frame:
  "segment env cfg waves i st = (r, st') \<Longrightarrow>
     remaining_num_traces st' = remaining_num_traces st \<and> cycle st' = cycle st
     \<and> target_log st' = target_log st"
  by (auto simp: segment_def Let_def split: prod.splits option.splits if_splits
           dest!: call_generate_ref_crypto_frame)

lemma segment_ok:
  assumes "segment env cfg waves i st = (None, st')"
  shows "\<exists>t. project st' = project st @ [t]
           \<and> trace_plaintext t = text_var st'
           \<and> ciphertext st' = Some (trace_ciphertext t)
           \<and> expected_ciphertext st' =
               Some (fold_expected (batch_mode cfg) (expected_ciphertext st) (trace_ciphertext t))"
  using assms
  by (auto simp: segment_def Let_def split: prod.splits option.splits if_splits
           dest!: call_generate_ref_crypto_frame)

lemma segment_loop_frame:
  "segment_loop env cfg waves is st = (r, st') \<Longrightarrow>
     remaining_num_traces st' = remaining_num_traces st \<and> cycle st' = cycle st
     \<and> target_log st' = target_log st"
proof (induction "is" arbitrary: st)
  case Nil
  then show ?case by simp
next
  case (Cons i "is")
  then show ?case
    by (auto split: prod.splits option.splits dest!: segment_frame)
qed

lemma segment_loop_ok:
  "segment_loop env cfg waves is st = (None, st') \<Longrightarrow>
     length (project st') = length (project st) + length is
     \<and> (is \<noteq> [] \<longrightarrow> expected_ciphertext st' \<noteq> None)"
proof (induction "is" arbitrary: st)
  case Nil
  then show ?case by simp
next
  case (Cons i "is")
  from Cons.prems obtain st1 where s1: "segment env cfg waves i st = (None, st1)"
    and rest: "segment_loop env cfg waves is st1 = (None, st')"
    by (auto split: prod.splits option.splits)
  from segment_ok [OF s1] obtain t where t: "project st1 = project st @ [t]"
    and e: "expected_ciphertext st1 \<noteq> None" by auto
  from Cons.IH [OF rest] t e rest show ?case
    by (cases "is") auto
qed


lemma trigger_frame:
  "trigger env cfg st = (r, st') \<Longrightarrow>
     remaining_num_traces st' = remaining_num_traces st \<and> cycle st' = cycle st
     \<and> project st' = project st"
  by (auto simp: trigger_def split: prod.splits sum.splits option.splits if_splits
           dest!: call_generate_ref_crypto_frame)

lemma capture_segments_frame:
  "capture_segments env cfg st = (r, st') \<Longrightarrow>
     remaining_num_traces st' = remaining_num_traces st \<and> cycle st' = Suc (cycle st)"
  by (auto simp: capture_segments_def Let_def split: prod.splits option.splits if_splits
           dest!: trigger_frame segment_loop_frame)

lemma capture_segments_ok:
  assumes "capture_segments env cfg st = (None, st')"
  shows "length (project st') = length (project st) + nat (num_segments cfg)"
    and "1 \<le> num_segments cfg \<Longrightarrow> expected_ciphertext st' \<noteq> None"
    and "num_segments cfg \<le> 0 \<Longrightarrow> expected_ciphertext st' = None"
proof -
  from assms obtain st1 where
    tr: "trigger env cfg (st\<lparr>target_log := target_log st @ [Arm], cycle := Suc (cycle st)\<rparr>)
           = (None, st1)"
    and loop: "segment_loop env cfg (capture_and_transfer_waves env (cycle st))
                 [0 ..< nat (num_segments cfg)]
                 (st1\<lparr>target_log := target_log st1 @ [CaptureWaves],
                       expected_ciphertext := None\<rparr>) = (None, st')"
    by (auto simp: capture_segments_def Let_def split: prod.splits option.splits if_splits)
  from trigger_frame [OF tr] have p: "project st1 = project st" by simp
  from segment_loop_ok [OF loop] p
  show "length (project st') = length (project st) + nat (num_segments cfg)" by simp
  show "expected_ciphertext st' \<noteq> None" if "1 \<le> num_segments cfg"
    using segment_loop_ok [OF loop] that by auto
  show "expected_ciphertext st' = None" if "num_segments cfg \<le> 0"
    using loop that by auto
qed

lemma capture_cycle_ok:
  assumes "capture_cycle env cfg st = (None, st')"
  shows "1 \<le> num_segments cfg"
    and "remaining_num_traces st' = remaining_num_traces st - num_segments cfg"
    and "cycle st' = Suc (cycle st)"
    and "length (project st') = length (project st) + nat (num_segments cfg)"
proof -
  from assms obtain st3 where
    segs: "capture_segments env cfg st = (None, st3)"
    and chk: "check_ciphertext (read_ciphertext env (cycle st) (output_len cfg))
                (expected_ciphertext st3) (output_len cfg) = None"
    and st': "st' = st3\<lparr>target_log := target_log st3 @ [ReadCiphertext (output_len cfg)],
                        remaining_num_traces := remaining_num_traces st3 - num_segments cfg\<rparr>"
    by (auto simp: capture_cycle_def Let_def split: prod.splits option.splits)
  from chk have "expected_ciphertext st3 \<noteq> None"
    by (auto simp: check_ciphertext_def split: option.splits)
  with capture_segments_ok(3) [OF segs] show "1 \<le> num_segments cfg" by force
  from capture_segments_frame [OF segs] st'
  show "remaining_num_traces st' = remaining_num_traces st - num_segments cfg"
    and "cycle st' = Suc (cycle st)" by simp_all
  from capture_segments_ok(1) [OF segs] st'
  show "length (project st') = length (project st) + nat (num_segments cfg)" by simp
qed

subsection \<open>The capture loop\<close>

text \<open>
  Lines 286-355: \<open>while remaining_num_traces > 0\<close>. An exception ends the loop. A cycle
  that completes has lowered \<open>remaining_num_traces\<close> by \<open>num_segments\<close>, and it
  completes only when \<open>num_segments\<close> is at least 1 (with no segment there is no expected
  value and the check raises), so the loop always ends.
\<close>

lemma capture_cycle_decreases:
  assumes "(None, st') = capture_cycle env cfg st"
  shows "remaining_num_traces st' < remaining_num_traces st"
proof -
  from assms have ok: "capture_cycle env cfg st = (None, st')" by simp
  from capture_cycle_ok(1) [OF ok] capture_cycle_ok(2) [OF ok] show ?thesis by simp
qed

function capture_loop ::
  "collaborators \<Rightarrow> CaptureConfig \<Rightarrow> capture_state \<Rightarrow> error option \<times> capture_state" where
  "capture_loop env cfg st =
     (if remaining_num_traces st > 0 then
        (case capture_cycle env cfg st of
           (Some e, st') \<Rightarrow> (Some e, st')
         | (None, st') \<Rightarrow> capture_loop env cfg st')
      else (None, st))"
  by pat_completeness auto
termination
  apply (relation "measure (\<lambda>(env, cfg, st). nat (remaining_num_traces st))")
   apply simp
  apply (simp add: capture_cycle_decreases)
  done

declare capture_loop.simps [simp del]

text \<open>
  Lines 268-288: the locals before the loop. \<open>sample_fixed\<close> starts at 0
  (``in the sha3_serial.c: static bool run_fixed = false;''); in batch mode the fixed
  message is sent to the device first. \<open>proj\<close> is the content of the project that
  \<open>capture\<close> is given.
\<close>

definition initial_state :: "CaptureConfig \<Rightarrow> trace list \<Rightarrow> capture_state" where
  "initial_state cfg proj =
     \<lparr>text_var = text_fixed cfg, ciphertext = None, plaintext = None, sample_fixed = 0,
      expected_ciphertext = None, remaining_num_traces = num_traces cfg,
      rng_calls = 0, cycle = 0, project = proj,
      target_log = (if batch_mode cfg then [FvsrFixedMsgSet (text_fixed cfg)] else [])\<rparr>"

definition capture ::
  "collaborators \<Rightarrow> CaptureConfig \<Rightarrow> trace list \<Rightarrow> error option \<times> capture_state" where
  "capture env cfg proj = capture_loop env cfg (initial_state cfg proj)"

subsection \<open>The stimuli of a session in FVSR batch mode\<close>

text \<open>
  The selector and the number of \<open>randint\<close> calls before sample \<open>i\<close> of a session in
  FVSR batch mode, samples counted from 0 across the batches. The session starts with
  selector 0 and no call made. Processing a sample draws its plaintext
  (\<open>text_len_bytes\<close> bytes when the selector is 0, none when it is set) and then the 16
  dummy bytes; the low bit of the first dummy byte is the selector of the next sample.
  \<open>fvsr_stimulus\<close> is the plaintext of sample \<open>i\<close>.
\<close>

fun fvsr_selector :: "collaborators \<Rightarrow> CaptureConfig \<Rightarrow> nat \<Rightarrow> int \<times> nat" where
  "fvsr_selector env cfg 0 = (0, 0)"
| "fvsr_selector env cfg (Suc i) =
     (case fvsr_selector env cfg i of
        (sel, k) \<Rightarrow>
          (let n = (if sel \<noteq> 0 then 0 else nat (text_len_bytes cfg));
               dummy = randint_bytes env (k + n) 16
           in (uint (dummy ! 0 AND 1), k + n + 16)))"

definition fvsr_stimulus :: "collaborators \<Rightarrow> CaptureConfig \<Rightarrow> nat \<Rightarrow> bytes" where
  "fvsr_stimulus env cfg i =
     (case fvsr_selector env cfg i of
        (sel, k) \<Rightarrow>
          if sel \<noteq> 0 then text_fixed cfg
          else randint_bytes env k (nat (text_len_bytes cfg)))"

text \<open>
  Two properties that every cycle keeps. In FVSR batch mode the traces appended so far
  carry the stimuli above, in order, and after a completed segment the selector and the
  number of calls are those of the next sample. In pure-random mode the local \<open>text\<close> is
  the fixed message, and so are all plaintexts stored and all plaintexts sent.
\<close>

definition follows_selector ::
  "collaborators \<Rightarrow> CaptureConfig \<Rightarrow> trace list \<Rightarrow> error option \<Rightarrow> capture_state \<Rightarrow> bool" where
  "follows_selector env cfg proj r s =
     (\<exists>new. project s = proj @ new
        \<and> (\<forall>i < length new. trace_plaintext (new ! i) = fvsr_stimulus env cfg i)
        \<and> (r = None \<longrightarrow> (sample_fixed s, rng_calls s) = fvsr_selector env cfg (length new)))"

definition resubmits_fixed ::
  "CaptureConfig \<Rightarrow> trace list \<Rightarrow> error option \<Rightarrow> capture_state \<Rightarrow> bool" where
  "resubmits_fixed cfg proj r s =
     (text_var s = text_fixed cfg
      \<and> (\<exists>new. project s = proj @ new \<and> (\<forall>t \<in> set new. trace_plaintext t = text_fixed cfg))
      \<and> (\<forall>b. Absorb b \<in> set (target_log s) \<longrightarrow> b = text_fixed cfg))"

section \<open>Stand-ins used to evaluate the model\<close>

text \<open>
  A cipher for concrete runs of the model: the byte-wise exclusive-or of key and data,
  with length checks in the manner of the library. It is not AES; the theorems below hold
  for every cipher.
\<close>

definition xor_cipher :: cipher where
  "xor_cipher key data =
     (if length key = 16 \<and> length data mod 16 = 0 then Inr (map2 (XOR) key data)
      else Inl ValueError)"

text \<open>
  Collaborators for concrete runs: a stand-in for the hash (not SHA3), a fixed stream of
  ``random'' bytes, a scope that returns \<open>nseg\<close> waves of two samples in every cycle, and
  a device whose answers are given. The configuration has a fixed message of three bytes.
\<close>

definition toy_sha3 :: "bytes \<Rightarrow> bytes" where
  "toy_sha3 p = map (\<lambda>b. 3 * b + 1) p"

definition toy_env :: "nat \<Rightarrow> (nat \<Rightarrow> int \<Rightarrow> bytes) \<Rightarrow> collaborators" where
  "toy_env nseg device =
     \<lparr>sha3_256 = toy_sha3, randint = (\<lambda>k. of_nat (7 * k + 3)),
      capture_and_transfer_waves = (\<lambda>n. replicate nseg [n, n + 1]),
      read_ciphertext = device\<rparr>"

definition toy_cfg :: "string \<Rightarrow> bool \<Rightarrow> int \<Rightarrow> int \<Rightarrow> CaptureConfig" where
  "toy_cfg mode batch ntraces nseg =
     \<lparr>capture_mode = mode, batch_mode = batch, num_traces = ntraces, num_segments = nseg,
      output_len = 2, text_fixed = [0xAA, 0xAA, 0xAA], text_len_bytes = 3,
      protocol = ''ujson'', port = None\<rparr>"

text \<open>
  Four configurations and their collaborators: FVSR batch mode with three traces in
  segments of two and a device that reports the right bytes in both cycles; FVSR batch
  mode with one segment; pure-random mode with two traces, once with a device that reports
  the right bytes and once with one that reports zeros; FVSR mode without batches.
\<close>

definition toy_batch_cfg :: CaptureConfig where
  "toy_batch_cfg = toy_cfg ''sha3_fvsr_data'' True 3 2"

definition toy_batch_env :: collaborators where
  "toy_batch_env = toy_env 2 (\<lambda>n len. if n = 0 then [147, 177] else [0, 0])"

definition toy_random_cfg :: CaptureConfig where
  "toy_random_cfg = toy_cfg ''sha3_random'' False 2 1"

definition toy_random_env :: collaborators where
  "toy_random_env = toy_env 1 (\<lambda>n len. [255, 255])"

definition toy_faulty_env :: collaborators where
  "toy_faulty_env = toy_env 1 (\<lambda>n len. [0, 0])"

definition toy_single_cfg :: CaptureConfig where
  "toy_single_cfg = toy_cfg ''sha3_fvsr_data'' True 2 1"

definition toy_fvsr_cfg :: CaptureConfig where
  "toy_fvsr_cfg = toy_cfg ''sha3_fvsr_data'' False 2 1"

lemmas toy_defs = toy_fvsr_cfg_def toy_single_cfg_def toy_batch_cfg_def toy_batch_env_def
  toy_random_cfg_def toy_random_env_def toy_faulty_env_def toy_cfg_def toy_env_def toy_sha3_def

lemmas capture_defs = capture_def initial_state_def capture_cycle_def capture_segments_def
  trigger_def to_bytes4_little_def segment_def call_generate_ref_crypto_def
  generate_ref_crypto_def randint_bytes_def check_ciphertext_def slice0_def fold_expected_def
  Let_def upt_rec

subsection \<open>Concrete runs\<close>

lemma toy_batch_cfg_fields:
  "batch_mode toy_batch_cfg" "capture_mode toy_batch_cfg = ''sha3_fvsr_data''"
  "num_traces toy_batch_cfg = 3" "num_segments toy_batch_cfg = 2"
  "output_len toy_batch_cfg = 2" "text_fixed toy_batch_cfg = [170, 170, 170]"
  "text_len_bytes toy_batch_cfg = 3"
  by (simp_all add: toy_defs)

lemma toy_random_cfg_fields:
  "\<not> batch_mode toy_random_cfg" "capture_mode toy_random_cfg = ''sha3_random''"
  "num_traces toy_random_cfg = 2" "num_segments toy_random_cfg = 1"
  "output_len toy_random_cfg = 2" "text_fixed toy_random_cfg = [170, 170, 170]"
  "text_len_bytes toy_random_cfg = 3"
  by (simp_all add: toy_defs)

lemma initial_state_fields:
  "cycle (initial_state cfg proj) = 0" "project (initial_state cfg proj) = proj"
  "remaining_num_traces (initial_state cfg proj) = num_traces cfg"
  "sample_fixed (initial_state cfg proj) = 0" "rng_calls (initial_state cfg proj) = 0"
  "text_var (initial_state cfg proj) = text_fixed cfg"
  by (simp_all add: initial_state_def)

lemma toy_single_cfg_fields:
  "batch_mode toy_single_cfg" "capture_mode toy_single_cfg = ''sha3_fvsr_data''"
  "num_traces toy_single_cfg = 2" "num_segments toy_single_cfg = 1"
  "output_len toy_single_cfg = 2" "text_fixed toy_single_cfg = [170, 170, 170]"
  "text_len_bytes toy_single_cfg = 3"
  by (simp_all add: toy_defs)

lemma toy_batch_first_segments:
  "capture_segments toy_batch_env toy_batch_cfg (initial_state toy_batch_cfg []) =
     (None,
      \<lparr>text_var = [136, 143, 150], ciphertext = Some [153, 174, 195],
       plaintext = None, sample_fixed = 1,
       expected_ciphertext = Some [147, 177, 247], remaining_num_traces = 3,
       rng_calls = 38, cycle = 1,
       project =
         [\<lparr>trace_wave = [0, 1], trace_plaintext = [3, 10, 17],
           trace_ciphertext = [10, 31, 52], trace_key = None\<rparr>,
          \<lparr>trace_wave = [0, 1], trace_plaintext = [136, 143, 150],
           trace_ciphertext = [153, 174, 195], trace_key = None\<rparr>],
       target_log =
         [FvsrFixedMsgSet [170, 170, 170], Arm, AbsorbBatch [2, 0, 0, 0], CaptureWaves]\<rparr>)"
  by (simp add: toy_defs capture_defs)

lemma toy_batch_run:
  "capture toy_batch_env toy_batch_cfg [] =
    (None,
  \<lparr>text_var = [170, 170, 170], ciphertext = Some [255, 255, 255],
     plaintext = None, sample_fixed = 1,
     expected_ciphertext = Some [0, 0, 0], remaining_num_traces = -1,
     rng_calls = 70, cycle = 2,
     project =
       [\<lparr>trace_wave = [0, 1], trace_plaintext = [3, 10, 17],
           trace_ciphertext = [10, 31, 52], trace_key = None\<rparr>,
        \<lparr>trace_wave = [0, 1], trace_plaintext = [136, 143, 150],
           trace_ciphertext = [153, 174, 195], trace_key = None\<rparr>,
        \<lparr>trace_wave = [1, 2], trace_plaintext = [170, 170, 170],
           trace_ciphertext = [255, 255, 255], trace_key = None\<rparr>,
        \<lparr>trace_wave = [1, 2], trace_plaintext = [170, 170, 170],
           trace_ciphertext = [255, 255, 255], trace_key = None\<rparr>],
     target_log =
       [FvsrFixedMsgSet [170, 170, 170], Arm, AbsorbBatch [2, 0, 0, 0],
        CaptureWaves, ReadCiphertext 2, Arm, AbsorbBatch [2, 0, 0, 0],
        CaptureWaves, ReadCiphertext 2]\<rparr>)"
  by (simp add: toy_defs capture_defs capture_loop.simps)

lemma toy_random_mismatch_run:
  "capture toy_faulty_env toy_random_cfg [] =
     (Some AssertionError,
  \<lparr>text_var = [170, 170, 170], ciphertext = Some [255, 255, 255],
     plaintext =
       Some
        [3, 10, 17, 24, 31, 38, 45, 52, 59, 66, 73, 80, 87, 94, 101, 108],
     sample_fixed = 0, expected_ciphertext = Some [255, 255, 255],
     remaining_num_traces = 2, rng_calls = 16, cycle = 1,
     project =
       [\<lparr>trace_wave = [0, 1], trace_plaintext = [170, 170, 170],
           trace_ciphertext = [255, 255, 255], trace_key = None\<rparr>],
     target_log =
       [Arm, Absorb [170, 170, 170], CaptureWaves, ReadCiphertext 2]\<rparr>)"
  by (simp add: toy_defs capture_defs capture_loop.simps)

lemma toy_single_first_segments:
  "capture_segments toy_random_env toy_single_cfg (initial_state toy_single_cfg []) =
     (None,
      \<lparr>text_var = [3, 10, 17], ciphertext = Some [10, 31, 52], plaintext = None,
       sample_fixed = 0, expected_ciphertext = Some [10, 31, 52],
       remaining_num_traces = 2, rng_calls = 19, cycle = 1,
       project =
         [\<lparr>trace_wave = [0, 1], trace_plaintext = [3, 10, 17],
           trace_ciphertext = [10, 31, 52], trace_key = None\<rparr>],
       target_log =
         [FvsrFixedMsgSet [170, 170, 170], Arm, AbsorbBatch [1, 0, 0, 0], CaptureWaves]\<rparr>)"
  by (simp add: toy_defs capture_defs)

lemma toy_random_first_segments:
  "capture_segments toy_faulty_env toy_random_cfg (initial_state toy_random_cfg []) =
     (None,
      \<lparr>text_var = [170, 170, 170], ciphertext = Some [255, 255, 255],
       plaintext = Some [3, 10, 17, 24, 31, 38, 45, 52, 59, 66, 73, 80, 87, 94, 101, 108],
       sample_fixed = 0, expected_ciphertext = Some [255, 255, 255],
       remaining_num_traces = 2, rng_calls = 16, cycle = 1,
       project =
         [\<lparr>trace_wave = [0, 1], trace_plaintext = [170, 170, 170],
           trace_ciphertext = [255, 255, 255], trace_key = None\<rparr>],
       target_log = [Arm, Absorb [170, 170, 170], CaptureWaves]\<rparr>)"
  "capture_segments toy_random_env toy_random_cfg (initial_state toy_random_cfg []) =
     (None,
      \<lparr>text_var = [170, 170, 170], ciphertext = Some [255, 255, 255],
       plaintext = Some [3, 10, 17, 24, 31, 38, 45, 52, 59, 66, 73, 80, 87, 94, 101, 108],
       sample_fixed = 0, expected_ciphertext = Some [255, 255, 255],
       remaining_num_traces = 2, rng_calls = 16, cycle = 1,
       project =
         [\<lparr>trace_wave = [0, 1], trace_plaintext = [170, 170, 170],
           trace_ciphertext = [255, 255, 255], trace_key = None\<rparr>],
       target_log = [Arm, Absorb [170, 170, 170], CaptureWaves]\<rparr>)"
  by (simp_all add: toy_defs capture_defs)

lemma toy_fvsr_cfg_fields:
  "\<not> batch_mode toy_fvsr_cfg" "capture_mode toy_fvsr_cfg = ''sha3_fvsr_data''"
  "num_traces toy_fvsr_cfg = 2" "num_segments toy_fvsr_cfg = 1"
  "output_len toy_fvsr_cfg = 2" "text_fixed toy_fvsr_cfg = [170, 170, 170]"
  "text_len_bytes toy_fvsr_cfg = 3"
  by (simp_all add: toy_fvsr_cfg_def toy_cfg_def)

lemma toy_random_run:
  "capture toy_random_env toy_random_cfg [] =
     (None,
      \<lparr>text_var = [170, 170, 170], ciphertext = Some [255, 255, 255],
       plaintext = Some [115, 122, 129, 136, 143, 150, 157, 164, 171, 178, 185, 192, 199,
                         206, 213, 220],
       sample_fixed = 0, expected_ciphertext = Some [255, 255, 255],
       remaining_num_traces = 0, rng_calls = 32, cycle = 2,
       project =
         [\<lparr>trace_wave = [0, 1], trace_plaintext = [170, 170, 170],
           trace_ciphertext = [255, 255, 255], trace_key = None\<rparr>,
          \<lparr>trace_wave = [1, 2], trace_plaintext = [170, 170, 170],
           trace_ciphertext = [255, 255, 255], trace_key = None\<rparr>],
       target_log =
         [Arm, Absorb [170, 170, 170], CaptureWaves, ReadCiphertext 2,
          Arm, Absorb [170, 170, 170], CaptureWaves, ReadCiphertext 2]\<rparr>)"
  by (simp add: toy_defs capture_defs capture_loop.simps)

lemma toy_fvsr_run:
  "capture toy_random_env toy_fvsr_cfg [] =
     (Some AttributeError,
      \<lparr>text_var = [170, 170, 170], ciphertext = None, plaintext = None,
       sample_fixed = 0, expected_ciphertext = None, remaining_num_traces = 2,
       rng_calls = 0, cycle = 1, project = [], target_log = [Arm]\<rparr>)"
  by (simp add: toy_fvsr_cfg_def toy_defs capture_defs capture_loop.simps)

lemma toy_batch_stimuli:
  "map (fvsr_stimulus toy_batch_env toy_batch_cfg) [0, 1, 2, 3] =
     [[3, 10, 17], [136, 143, 150], [170, 170, 170], [170, 170, 170]]"
  by code_simp

section \<open>The data generator: determinism and frame\<close>

text \<open>
  The methods read the four data attributes through \<open>self\<close> and the generator cipher,
  and nothing else: two instances that agree on those give the same results and agree
  again afterwards.
\<close>

lemma advance_fixed_view:
  assumes "fixed_random_state s1 = fixed_random_state s2" and "cipher_gen s1 = cipher_gen s2"
  shows "fst (advance_fixed aes s1) = fst (advance_fixed aes s2)"
    and "fixed_random_state (snd (advance_fixed aes s1)) = fixed_random_state (snd (advance_fixed aes s2))"
    and "cipher_gen (snd (advance_fixed aes s1)) = cipher_gen (snd (advance_fixed aes s2))"
  using assms
  by (auto simp: advance_fixed_def fixed_random_state_def self_text_fixed_def
        self_text_random_def self_key_fixed_def self_key_random_def split: sum.splits)

lemma advance_random_view:
  assumes "fixed_random_state s1 = fixed_random_state s2" and "cipher_gen s1 = cipher_gen s2"
  shows "fst (advance_random aes s1) = fst (advance_random aes s2)"
    and "fixed_random_state (snd (advance_random aes s1)) = fixed_random_state (snd (advance_random aes s2))"
    and "cipher_gen (snd (advance_random aes s1)) = cipher_gen (snd (advance_random aes s2))"
  using assms
  by (auto simp: advance_random_def fixed_random_state_def self_text_fixed_def Let_def
        self_text_random_def self_key_fixed_def self_key_random_def split: sum.splits)

lemma dg_call_view:
  assumes v: "fixed_random_state s1 = fixed_random_state s2" and g: "cipher_gen s1 = cipher_gen s2"
  shows "fst (dg_call aes kmac c s1) = fst (dg_call aes kmac c s2)"
    and "fixed_random_state (snd (dg_call aes kmac c s1)) = fixed_random_state (snd (dg_call aes kmac c s2))"
    and "cipher_gen (snd (dg_call aes kmac c s1)) = cipher_gen (snd (dg_call aes kmac c s2))"
proof -
  from v have r: "self_text_fixed s1 = self_text_fixed s2" "self_text_random s1 = self_text_random s2"
    "self_key_fixed s1 = self_key_fixed s2" "self_key_random s1 = self_key_random s2"
    by (simp_all add: fixed_random_state_def)
  note af = advance_fixed_view [OF v g, of aes] and ar = advance_random_view [OF v g, of aes]
  show "fst (dg_call aes kmac c s1) = fst (dg_call aes kmac c s2)"
    using r af(1) ar(1)
    by (cases c) (auto simp: get_fixed_def get_random_def get_kmac_fixed_def get_kmac_random_def
        Let_def fixed_random_state_def split: sum.splits prod.splits option.splits)
  show "fixed_random_state (snd (dg_call aes kmac c s1)) = fixed_random_state (snd (dg_call aes kmac c s2))"
    using r af(1,2) ar(1,2) v
    by (cases c) (auto simp: get_fixed_def get_random_def get_kmac_fixed_def get_kmac_random_def
        Let_def split: sum.splits prod.splits option.splits)
  show "cipher_gen (snd (dg_call aes kmac c s1)) = cipher_gen (snd (dg_call aes kmac c s2))"
    using r af(1,3) ar(1,3) g
    by (cases c) (auto simp: get_fixed_def get_random_def get_kmac_fixed_def get_kmac_random_def
        Let_def split: sum.splits prod.splits option.splits)
qed

text \<open>
  C7: replaying the same sequence of \<open>get_fixed\<close>, \<open>get_random\<close>, \<open>get_kmac_fixed\<close>
  and \<open>get_kmac_random\<close> calls on two initialised generators (their \<open>cipher_gen\<close> is the
  cipher keyed with \<open>key_generation\<close>) whose fixed/random state is the same gives the
  same list of \<open>(plaintext, digest, key)\<close> results, byte for byte. The results depend on
  the current fixed/random state only: not on whether an attribute is still the class's or
  already the instance's, and on nothing else. Two fresh generators are the special case
  \<open>s1 = s2 = data_generator_init\<close>.
\<close>

theorem replay_deterministic:
  assumes "cipher_gen s1 = key_generation" and "cipher_gen s2 = key_generation"
    and "fixed_random_state s1 = fixed_random_state s2"
  shows "fst (replay aes kmac cs s1) = fst (replay aes kmac cs s2)"
proof -
  have "fixed_random_state s1 = fixed_random_state s2 \<Longrightarrow> cipher_gen s1 = cipher_gen s2 \<Longrightarrow>
        fst (replay aes kmac cs s1) = fst (replay aes kmac cs s2)"
  proof (induction cs arbitrary: s1 s2)
    case Nil
    then show ?case by simp
  next
    case (Cons c cs)
    note d = dg_call_view [OF Cons.prems, of aes kmac c]
    obtain r1 t1 where c1: "dg_call aes kmac c s1 = (r1, t1)" by (cases "dg_call aes kmac c s1")
    obtain r2 t2 where c2: "dg_call aes kmac c s2 = (r2, t2)" by (cases "dg_call aes kmac c s2")
    from d c1 c2 have eq: "r1 = r2" "fixed_random_state t1 = fixed_random_state t2"
      "cipher_gen t1 = cipher_gen t2" by simp_all
    from Cons.IH [OF eq(2,3)] have "fst (replay aes kmac cs t1) = fst (replay aes kmac cs t2)" .
    with c1 c2 eq(1) show ?case
      by (auto split: sum.splits prod.splits)
  qed
  with assms show ?thesis by simp
qed

text \<open>
  The hypotheses hold for a fresh generator and a generator after \<open>set_start\<close>, which
  differ as instances.
\<close>

theorem replay_deterministic_witness:
  "cipher_gen data_generator_init = key_generation
   \<and> cipher_gen (set_start data_generator_init) = key_generation
   \<and> fixed_random_state data_generator_init = fixed_random_state (set_start data_generator_init)
   \<and> data_generator_init \<noteq> set_start data_generator_init
   \<and> fst (replay xor_cipher xor_cipher [GetFixed, GetRandom, GetKmacFixed] data_generator_init)
       = fst (replay xor_cipher xor_cipher [GetFixed, GetRandom, GetKmacFixed]
               (set_start data_generator_init))"
proof -
  have a: "cipher_gen data_generator_init = key_generation"
    by (simp add: data_generator_init_def)
  have b: "cipher_gen (set_start data_generator_init) = key_generation"
    by (simp add: data_generator_init_def set_start_def)
  have c: "fixed_random_state data_generator_init = fixed_random_state (set_start data_generator_init)"
    by (simp add: data_generator_init_def set_start_def fixed_random_state_def
        self_text_fixed_def self_text_random_def self_key_fixed_def self_key_random_def
        class_text_fixed_def class_text_random_def class_key_fixed_def class_key_random_def)
  have d: "data_generator_init \<noteq> set_start data_generator_init"
    by (simp add: data_generator_init_def set_start_def)
  from a b c d replay_deterministic [OF a b c] show ?thesis by blast
qed

text \<open>
  C9: \<open>get_fixed\<close> and \<open>get_kmac_fixed\<close> leave an instance that differs from the one they
  found in \<open>text_fixed\<close> at most, so \<open>text_random\<close>, \<open>key_random\<close> and \<open>key_fixed\<close> are
  unchanged; \<open>get_random\<close> and \<open>get_kmac_random\<close> leave one that differs in
  \<open>text_random\<close> and \<open>key_random\<close> at most, so \<open>text_fixed\<close> and \<open>key_fixed\<close> are
  unchanged; the same holds for \<open>advance_fixed\<close> and \<open>advance_random\<close>, so no advance
  operation modifies \<open>key_fixed\<close>. This holds also when the call raises.
\<close>

theorem get_methods_frame:
  "(\<exists>tf. snd (get_fixed aes s) = s\<lparr>inst_text_fixed := tf\<rparr>)
   \<and> (\<exists>tf. snd (get_kmac_fixed aes kmac s) = s\<lparr>inst_text_fixed := tf\<rparr>)
   \<and> (\<exists>tr kr. snd (get_random aes s) = s\<lparr>inst_text_random := tr, inst_key_random := kr\<rparr>)
   \<and> (\<exists>tr kr. snd (get_kmac_random aes kmac s) = s\<lparr>inst_text_random := tr, inst_key_random := kr\<rparr>)
   \<and> (\<exists>tf. snd (advance_fixed aes s) = s\<lparr>inst_text_fixed := tf\<rparr>)
   \<and> (\<exists>tr kr. snd (advance_random aes s) = s\<lparr>inst_text_random := tr, inst_key_random := kr\<rparr>)"
proof -
  have af: "\<exists>tf. snd (advance_fixed aes s) = s\<lparr>inst_text_fixed := tf\<rparr>"
  proof (cases "aes (cipher_gen s) (self_text_fixed s)")
    case (Inl e)
    then have "snd (advance_fixed aes s) = s\<lparr>inst_text_fixed := inst_text_fixed s\<rparr>"
      by (simp add: advance_fixed_def)
    then show ?thesis ..
  next
    case (Inr c)
    then have "snd (advance_fixed aes s) = s\<lparr>inst_text_fixed := Some c\<rparr>"
      by (simp add: advance_fixed_def)
    then show ?thesis ..
  qed
  have ar: "\<exists>tr kr. snd (advance_random aes s) = s\<lparr>inst_text_random := tr, inst_key_random := kr\<rparr>"
  proof (cases "aes (cipher_gen s) (self_text_random s)")
    case (Inl e)
    then have "snd (advance_random aes s)
      = s\<lparr>inst_text_random := inst_text_random s, inst_key_random := inst_key_random s\<rparr>"
      by (simp add: advance_random_def)
    then show ?thesis by blast
  next
    case (Inr c)
    show ?thesis
    proof (cases "aes (cipher_gen s) (self_key_random (s\<lparr>inst_text_random := Some c\<rparr>))")
      case (Inl e)
      with Inr have "snd (advance_random aes s)
        = s\<lparr>inst_text_random := Some c, inst_key_random := inst_key_random s\<rparr>"
        by (simp add: advance_random_def)
      then show ?thesis by blast
    next
      case (Inr k)
      with \<open>aes (cipher_gen s) (self_text_random s) = Inr c\<close> have "snd (advance_random aes s)
        = s\<lparr>inst_text_random := Some c, inst_key_random := Some k\<rparr>"
        by (simp add: advance_random_def)
      then show ?thesis by blast
    qed
  qed
  have id1: "\<exists>tf. s = s\<lparr>inst_text_fixed := tf\<rparr>"
  proof
    show "s = s\<lparr>inst_text_fixed := inst_text_fixed s\<rparr>" by simp
  qed
  have id2: "\<exists>tr kr. s = s\<lparr>inst_text_random := tr, inst_key_random := kr\<rparr>"
  proof (intro exI)
    show "s = s\<lparr>inst_text_random := inst_text_random s, inst_key_random := inst_key_random s\<rparr>"
      by simp
  qed
  have "snd (get_fixed aes s) = s \<or> snd (get_fixed aes s) = snd (advance_fixed aes s)"
    by (auto simp: get_fixed_def Let_def split: sum.splits prod.splits option.splits)
  with af id1 have gf: "\<exists>tf. snd (get_fixed aes s) = s\<lparr>inst_text_fixed := tf\<rparr>"
    by metis
  have "snd (get_kmac_fixed aes kmac s) = s
        \<or> snd (get_kmac_fixed aes kmac s) = snd (advance_fixed aes s)"
    by (auto simp: get_kmac_fixed_def Let_def split: sum.splits prod.splits option.splits)
  with af id1 have gkf: "\<exists>tf. snd (get_kmac_fixed aes kmac s) = s\<lparr>inst_text_fixed := tf\<rparr>"
    by metis
  have "snd (get_random aes s) = s \<or> snd (get_random aes s) = snd (advance_random aes s)"
    by (auto simp: get_random_def Let_def split: sum.splits prod.splits option.splits)
  with ar id2 have gr:
    "\<exists>tr kr. snd (get_random aes s) = s\<lparr>inst_text_random := tr, inst_key_random := kr\<rparr>"
    by metis
  have "snd (get_kmac_random aes kmac s) = s
        \<or> snd (get_kmac_random aes kmac s) = snd (advance_random aes s)"
    by (auto simp: get_kmac_random_def Let_def split: sum.splits prod.splits option.splits)
  with ar id2 have gkr:
    "\<exists>tr kr. snd (get_kmac_random aes kmac s) = s\<lparr>inst_text_random := tr, inst_key_random := kr\<rparr>"
    by metis
  from af ar gf gkf gr gkr show ?thesis by blast
qed

section \<open>FVSR batch mode: what one segment does\<close>

text \<open>
  C4: in FVSR batch mode (\<open>batch_mode\<close> set, \<open>capture_mode\<close> \<open>sha3_fvsr_data\<close>), for
  every segment with a wave: the plaintext \<open>p\<close> is the configured fixed message when the
  current selector \<open>sample_fixed\<close> is set, and \<open>text_len_bytes\<close> freshly drawn bytes
  otherwise; after it the host draws a block \<open>dummy\<close> of 16 bytes; the selector for the
  next segment is the low bit of the first byte of \<open>dummy\<close>; and \<open>dummy\<close> goes nowhere
  else: the stored plaintext is \<open>p\<close>, the stored and folded digest is the hash of \<open>p\<close>.
  The state after the segment is given in full.
\<close>

theorem fvsr_batch_segment:
  assumes "batch_mode cfg" and "capture_mode cfg = ''sha3_fvsr_data''"
    and "i < length waves" and "waves ! i \<noteq> []"
  shows "let n = (if sample_fixed st \<noteq> 0 then 0 else nat (text_len_bytes cfg));
             p = (if sample_fixed st \<noteq> 0 then text_fixed cfg
                  else randint_bytes env (rng_calls st) (nat (text_len_bytes cfg)));
             dummy = randint_bytes env (rng_calls st + n) 16
         in length dummy = 16
            \<and> (sample_fixed st = 0 \<longrightarrow> length p = nat (text_len_bytes cfg))
            \<and> segment env cfg waves i st =
                (None, st\<lparr>text_var := p,
                          ciphertext := Some (sha3_256 env p),
                          sample_fixed := uint (dummy ! 0 AND 1),
                          rng_calls := rng_calls st + n + 16,
                          project := project st @
                            [\<lparr>trace_wave = waves ! i, trace_plaintext = p,
                              trace_ciphertext = sha3_256 env p, trace_key = None\<rparr>],
                          expected_ciphertext :=
                            Some (case expected_ciphertext st of
                                    None \<Rightarrow> sha3_256 env p
                                  | Some e \<Rightarrow> map2 (XOR) (sha3_256 env p) e)\<rparr>)"
proof -
  have len: "\<And>k m. length (randint_bytes env k m) = m"
    by (simp add: randint_bytes_def)
  from assms(3,4) have w: "\<not> length waves \<le> i" "1 \<le> length (waves ! i)"
    by (simp_all add: Suc_le_eq)
  show ?thesis
  proof (cases "sample_fixed st = 0")
    case True
    with assms(1,2) w show ?thesis
      by (simp add: segment_def call_generate_ref_crypto_def generate_ref_crypto_def
          fold_expected_def len Let_def)
  next
    case False
    with assms(1,2) w show ?thesis
      by (simp add: segment_def call_generate_ref_crypto_def generate_ref_crypto_def
          fold_expected_def len Let_def)
  qed
qed

theorem fvsr_batch_segment_witness:
  "batch_mode (toy_cfg ''sha3_fvsr_data'' True 4 2)
   \<and> capture_mode (toy_cfg ''sha3_fvsr_data'' True 4 2) = ''sha3_fvsr_data''
   \<and> (1::nat) < length [[5], [6::nat]] \<and> [[5], [6::nat]] ! 1 \<noteq> []
   \<and> text_var (snd (segment (toy_env 2 (\<lambda>n len. [])) (toy_cfg ''sha3_fvsr_data'' True 4 2)
                      [[5], [6]] 1 (initial_state (toy_cfg ''sha3_fvsr_data'' True 4 2) [])))
       = [3, 10, 17]
   \<and> sample_fixed (snd (segment (toy_env 2 (\<lambda>n len. [])) (toy_cfg ''sha3_fvsr_data'' True 4 2)
                      [[5], [6]] 1 (initial_state (toy_cfg ''sha3_fvsr_data'' True 4 2) [])))
       = 0"
  using fvsr_batch_segment [of "toy_cfg ''sha3_fvsr_data'' True 4 2" 1 "[[5], [6]]"
      "initial_state (toy_cfg ''sha3_fvsr_data'' True 4 2) []" "toy_env 2 (\<lambda>n len. [])"]
  by (simp add: toy_cfg_def toy_env_def toy_sha3_def initial_state_def randint_bytes_def
      Let_def upt_rec)

section \<open>The expected value of a batch\<close>

lemma segment_loop_fold:
  "segment_loop env cfg waves is st = (None, st') \<Longrightarrow>
     \<exists>new. project st' = project st @ new \<and> length new = length is
       \<and> expected_ciphertext st' =
           foldl (\<lambda>acc d. Some (fold_expected (batch_mode cfg) acc d))
             (expected_ciphertext st) (map trace_ciphertext new)"
proof (induction "is" arbitrary: st)
  case Nil
  then show ?case by simp
next
  case (Cons i "is")
  from Cons.prems obtain st1 where s1: "segment env cfg waves i st = (None, st1)"
    and rest: "segment_loop env cfg waves is st1 = (None, st')"
    by (auto split: prod.splits option.splits)
  from segment_ok [OF s1] obtain t where t: "project st1 = project st @ [t]"
    and e: "expected_ciphertext st1 =
              Some (fold_expected (batch_mode cfg) (expected_ciphertext st) (trace_ciphertext t))"
    by auto
  from Cons.IH [OF rest] obtain new where n: "project st' = project st1 @ new"
    "length new = length is"
    "expected_ciphertext st' =
       foldl (\<lambda>acc d. Some (fold_expected (batch_mode cfg) acc d))
         (expected_ciphertext st1) (map trace_ciphertext new)"
    by auto
  have "project st' = project st @ (t # new) \<and> length (t # new) = length (i # is)
       \<and> expected_ciphertext st' =
           foldl (\<lambda>acc d. Some (fold_expected (batch_mode cfg) acc d))
             (expected_ciphertext st) (map trace_ciphertext (t # new))"
    using t e n by simp
  then show ?case by blast
qed

lemma capture_segments_fold:
  assumes "capture_segments env cfg st = (None, st')"
  shows "\<exists>new. project st' = project st @ new \<and> length new = nat (num_segments cfg)
       \<and> expected_ciphertext st' =
           foldl (\<lambda>acc d. Some (fold_expected (batch_mode cfg) acc d))
             None (map trace_ciphertext new)"
proof -
  from assms obtain st1 where
    tr: "trigger env cfg (st\<lparr>target_log := target_log st @ [Arm], cycle := Suc (cycle st)\<rparr>)
           = (None, st1)"
    and loop: "segment_loop env cfg (capture_and_transfer_waves env (cycle st))
                 [0 ..< nat (num_segments cfg)]
                 (st1\<lparr>target_log := target_log st1 @ [CaptureWaves],
                       expected_ciphertext := None\<rparr>) = (None, st')"
    by (auto simp: capture_segments_def Let_def split: prod.splits option.splits if_splits)
  from trigger_frame [OF tr] have p: "project st1 = project st" by simp
  from segment_loop_fold [OF loop] p show ?thesis by simp
qed

text \<open>
  C1: in batch mode the accumulator \<open>expected_ciphertext\<close> is absent at the start of
  every batch, whatever it was before: after the loop over the segments it is the fold,
  started from \<open>None\<close>, of the digests of the traces this batch appended. Folding a digest
  into an absent accumulator gives the digest; folding it into an accumulator gives the
  byte-wise exclusive-or of the two. With a non-negative \<open>output_len\<close>, the cycle passes
  the check exactly when the bytes the device reports are the first \<open>output_len\<close> bytes
  of the accumulated value.
\<close>

theorem batch_expected_fold:
  assumes "batch_mode cfg" and "0 \<le> output_len cfg"
    and "capture_segments env cfg st = (None, st')"
  shows "fold_expected True None d = d
     \<and> fold_expected True (Some acc) d = map2 (XOR) d acc
     \<and> (\<exists>new. project st' = project st @ new
          \<and> expected_ciphertext st' =
              foldl (\<lambda>a x. Some (fold_expected True a x)) None (map trace_ciphertext new)
          \<and> (case expected_ciphertext st' of
                None \<Rightarrow> fst (capture_cycle env cfg st) = Some TypeError
              | Some e \<Rightarrow>
                  (fst (capture_cycle env cfg st) = None) =
                  (read_ciphertext env (cycle st) (output_len cfg) = take (nat (output_len cfg)) e)))"
proof -
  from capture_segments_fold [OF assms(3)] assms(1) obtain new where
    n: "project st' = project st @ new"
       "expected_ciphertext st' =
          foldl (\<lambda>a x. Some (fold_expected True a x)) None (map trace_ciphertext new)"
    by auto
  have c: "case expected_ciphertext st' of
                None \<Rightarrow> fst (capture_cycle env cfg st) = Some TypeError
              | Some e \<Rightarrow>
                  (fst (capture_cycle env cfg st) = None) =
                  (read_ciphertext env (cycle st) (output_len cfg) = take (nat (output_len cfg)) e)"
    using assms(2,3)
    by (simp add: capture_cycle_def check_ciphertext_def slice0_def Let_def split: option.splits)
  have "fold_expected True None d = d" "fold_expected True (Some acc) d = map2 (XOR) d acc"
    by (simp_all add: fold_expected_def)
  with n c show ?thesis by blast
qed

theorem batch_expected_fold_witness:
  "batch_mode toy_batch_cfg \<and> 0 \<le> output_len toy_batch_cfg
   \<and> fst (capture_segments toy_batch_env toy_batch_cfg (initial_state toy_batch_cfg [])) = None
   \<and> foldl (\<lambda>a x. Some (fold_expected True a x)) None [[10, 31, 52], [153, 174, 195]]
       = Some [147, 177, 247]
   \<and> fst (capture_cycle toy_batch_env toy_batch_cfg (initial_state toy_batch_cfg [])) = None"
proof -
  have b: "batch_mode toy_batch_cfg" and l: "0 \<le> output_len toy_batch_cfg"
    by (simp_all add: toy_batch_cfg_fields)
  have r: "read_ciphertext toy_batch_env 0 2 = [147, 177]"
    by (simp add: toy_batch_env_def toy_env_def)
  from batch_expected_fold [OF b l toy_batch_first_segments]
  show ?thesis
    by (simp add: toy_batch_first_segments toy_batch_cfg_fields initial_state_fields r
        fold_expected_def)
qed

section \<open>A batch of one segment\<close>

lemma batch_digest_of_plaintext:
  assumes "batch_mode cfg" and "segment env cfg waves i st = (None, st')"
  shows "\<exists>t. project st' = project st @ [t]
           \<and> trace_ciphertext t = sha3_256 env (trace_plaintext t)
           \<and> expected_ciphertext st' =
               Some (fold_expected True (expected_ciphertext st) (trace_ciphertext t))"
  using assms
  by (auto simp: segment_def call_generate_ref_crypto_def generate_ref_crypto_def Let_def
           split: prod.splits option.splits if_splits)

lemma random_digest_of_plaintext:
  assumes "\<not> batch_mode cfg" and "capture_mode cfg = ''sha3_random''"
    and "segment env cfg waves i st = (None, st')"
  shows "project st' = project st @
           [\<lparr>trace_wave = waves ! i, trace_plaintext = text_var st,
             trace_ciphertext = sha3_256 env (text_var st), trace_key = None\<rparr>]
         \<and> expected_ciphertext st' = Some (sha3_256 env (text_var st))
         \<and> text_var st' = text_var st"
  using assms
  by (auto simp: segment_def call_generate_ref_crypto_def generate_ref_crypto_def Let_def
           fold_expected_def split: prod.splits option.splits if_splits)

text \<open>
  C8: in batch mode with \<open>num_segments = 1\<close> the expected value after the loop over the
  segments is the digest of the one plaintext of the batch: the fold of one element is the
  element. It is the value the non-batch branch assigns for that digest, and the value a
  non-batch (pure-random) segment computes when its plaintext is the same.
\<close>

theorem single_segment_batch:
  assumes "batch_mode cfg" and "num_segments cfg = 1"
    and "capture_segments env cfg st = (None, st')"
  shows "\<exists>t. project st' = project st @ [t]
           \<and> trace_ciphertext t = sha3_256 env (trace_plaintext t)
           \<and> expected_ciphertext st' = Some (trace_ciphertext t)
           \<and> expected_ciphertext st' = Some (fold_expected False None (trace_ciphertext t))
           \<and> (\<forall>st2 w. text_var st2 = trace_plaintext t \<and> w \<noteq> [] \<longrightarrow>
                 expected_ciphertext
                   (snd (segment env (cfg\<lparr>batch_mode := False, capture_mode := ''sha3_random''\<rparr>)
                           [w] 0 st2))
                 = expected_ciphertext st')"
proof -
  from assms(2,3) obtain st1 where
    seg: "segment env cfg (capture_and_transfer_waves env (cycle st)) 0
            (st1\<lparr>target_log := target_log st1 @ [CaptureWaves], expected_ciphertext := None\<rparr>)
          = (None, st')"
    and tr: "trigger env cfg (st\<lparr>target_log := target_log st @ [Arm], cycle := Suc (cycle st)\<rparr>)
           = (None, st1)"
    by (auto simp: capture_segments_def Let_def split: prod.splits option.splits if_splits)
  from trigger_frame [OF tr] have p: "project st1 = project st" by simp
  from batch_digest_of_plaintext [OF assms(1) seg] p obtain t where
    t: "project st' = project st @ [t]" "trace_ciphertext t = sha3_256 env (trace_plaintext t)"
       "expected_ciphertext st' = Some (trace_ciphertext t)"
    by (auto simp: fold_expected_def)
  have nb: "expected_ciphertext
              (snd (segment env (cfg\<lparr>batch_mode := False, capture_mode := ''sha3_random''\<rparr>)
                      [w] 0 st2)) = expected_ciphertext st'"
    if "text_var st2 = trace_plaintext t" and "w \<noteq> []" for st2 w
    using that t(2,3)
    by (cases w) (simp_all add: segment_def call_generate_ref_crypto_def generate_ref_crypto_def
        Let_def fold_expected_def)
  from t nb show ?thesis
    by (auto simp: fold_expected_def)
qed

theorem single_segment_batch_witness:
  "batch_mode toy_single_cfg \<and> num_segments toy_single_cfg = 1
   \<and> fst (capture_segments toy_random_env toy_single_cfg (initial_state toy_single_cfg [])) = None
   \<and> expected_ciphertext
        (snd (capture_segments toy_random_env toy_single_cfg (initial_state toy_single_cfg [])))
       = Some [10, 31, 52]
   \<and> text_var ((initial_state toy_random_cfg [])\<lparr>text_var := [3, 10, 17]\<rparr>) = [3, 10, 17]
   \<and> [0, 1 :: nat] \<noteq> []
   \<and> expected_ciphertext
        (snd (segment toy_random_env
                (toy_single_cfg\<lparr>batch_mode := False, capture_mode := ''sha3_random''\<rparr>)
                [[0, 1]] 0 ((initial_state toy_random_cfg [])\<lparr>text_var := [3, 10, 17]\<rparr>)))
       = Some [10, 31, 52]"
proof -
  have b: "batch_mode toy_single_cfg" and n: "num_segments toy_single_cfg = 1"
    by (simp_all add: toy_single_cfg_fields)
  let ?st' = "snd (capture_segments toy_random_env toy_single_cfg
                     (initial_state toy_single_cfg []))"
  have h: "capture_segments toy_random_env toy_single_cfg (initial_state toy_single_cfg [])
           = (None, ?st')"
    by (simp add: toy_single_first_segments)
  from single_segment_batch [OF b n h] obtain t where
    t: "project ?st' = project (initial_state toy_single_cfg []) @ [t]"
    and nb: "\<forall>st2 w. text_var st2 = trace_plaintext t \<and> w \<noteq> [] \<longrightarrow>
               expected_ciphertext
                 (snd (segment toy_random_env
                         (toy_single_cfg\<lparr>batch_mode := False, capture_mode := ''sha3_random''\<rparr>)
                         [w] 0 st2))
               = expected_ciphertext ?st'"
    by blast
  from t have tp: "trace_plaintext t = [3, 10, 17]"
    by (auto simp: toy_single_first_segments initial_state_fields)
  have "text_var ((initial_state toy_random_cfg [])\<lparr>text_var := [3, 10, 17]\<rparr>)
          = trace_plaintext t \<and> [0, 1 :: nat] \<noteq> []"
    using tp by simp
  with nb have "expected_ciphertext
        (snd (segment toy_random_env
                (toy_single_cfg\<lparr>batch_mode := False, capture_mode := ''sha3_random''\<rparr>)
                [[0, 1]] 0 ((initial_state toy_random_cfg [])\<lparr>text_var := [3, 10, 17]\<rparr>)))
       = expected_ciphertext ?st'"
    by blast
  then show ?thesis
    by (simp add: toy_single_first_segments toy_single_cfg_fields)
qed

section \<open>The check of the device's answer\<close>

text \<open>
  C6: take a cycle of the loop, with \<open>output_len\<close> non-negative and at least one segment,
  whose segments were processed. There is an expected value \<open>e\<close>; \<open>check_ciphertext\<close>
  fails exactly when the bytes the device reports differ from the first \<open>output_len\<close>
  bytes of \<open>e\<close>. If they differ, the whole loop ends there with AssertionError, in the
  state of the failed check: no further cycle, no retry. If they agree, the loop goes
  on from the state with \<open>remaining_num_traces\<close> lowered by \<open>num_segments\<close>.
\<close>

theorem digest_check:
  assumes "0 \<le> output_len cfg" and "1 \<le> num_segments cfg"
    and "0 < remaining_num_traces st"
    and "capture_segments env cfg st = (None, st3)"
  shows "\<exists>e. expected_ciphertext st3 = Some e
      \<and> (let actual = read_ciphertext env (cycle st) (output_len cfg);
              st4 = st3\<lparr>target_log := target_log st3 @ [ReadCiphertext (output_len cfg)]\<rparr>
         in (check_ciphertext actual (Some e) (output_len cfg) \<noteq> None)
              = (actual \<noteq> take (nat (output_len cfg)) e)
            \<and> (actual \<noteq> take (nat (output_len cfg)) e \<longrightarrow>
                  capture_loop env cfg st = (Some AssertionError, st4))
            \<and> (actual = take (nat (output_len cfg)) e \<longrightarrow>
                  capture_loop env cfg st =
                  capture_loop env cfg
                    (st4\<lparr>remaining_num_traces :=
                           remaining_num_traces st - num_segments cfg\<rparr>)))"
proof -
  from capture_segments_ok(2) [OF assms(4) assms(2)] obtain e where
    e: "expected_ciphertext st3 = Some e" by auto
  from capture_segments_frame [OF assms(4)] have
    r: "remaining_num_traces st3 = remaining_num_traces st" by simp
  have chk: "(check_ciphertext a (Some e) (output_len cfg) \<noteq> None)
             = (a \<noteq> take (nat (output_len cfg)) e)" for a
    using assms(1) by (simp add: check_ciphertext_def slice0_def)
  have bad: "capture_loop env cfg st =
      (Some AssertionError, st3\<lparr>target_log := target_log st3 @ [ReadCiphertext (output_len cfg)]\<rparr>)"
    if "read_ciphertext env (cycle st) (output_len cfg) \<noteq> take (nat (output_len cfg)) e"
    using that assms(1,3,4) e
    by (simp add: capture_loop.simps [of env cfg st] capture_cycle_def check_ciphertext_def
        slice0_def Let_def)
  have good: "capture_loop env cfg st =
      capture_loop env cfg
        (st3\<lparr>target_log := target_log st3 @ [ReadCiphertext (output_len cfg)],
              remaining_num_traces := remaining_num_traces st - num_segments cfg\<rparr>)"
    if "read_ciphertext env (cycle st) (output_len cfg) = take (nat (output_len cfg)) e"
    using that assms(1,3,4) e r
    by (simp add: capture_loop.simps [of env cfg st] capture_cycle_def check_ciphertext_def
        slice0_def Let_def)
  from e chk bad good show ?thesis
    by (simp add: Let_def)
qed

theorem digest_check_witness:
  "0 \<le> output_len toy_random_cfg \<and> 1 \<le> num_segments toy_random_cfg
   \<and> 0 < remaining_num_traces (initial_state toy_random_cfg [])
   \<and> fst (capture_segments toy_faulty_env toy_random_cfg (initial_state toy_random_cfg [])) = None
   \<and> read_ciphertext toy_faulty_env 0 2 \<noteq> take 2 [255, 255, 255]
   \<and> fst (capture_loop toy_faulty_env toy_random_cfg (initial_state toy_random_cfg []))
       = Some AssertionError
   \<and> cycle (snd (capture_loop toy_faulty_env toy_random_cfg (initial_state toy_random_cfg []))) = 1
   \<and> fst (capture_segments toy_random_env toy_random_cfg (initial_state toy_random_cfg [])) = None
   \<and> read_ciphertext toy_random_env 0 2 = take 2 [255, 255, 255]
   \<and> capture_loop toy_random_env toy_random_cfg (initial_state toy_random_cfg []) =
       capture_loop toy_random_env toy_random_cfg
         \<lparr>text_var = [170, 170, 170], ciphertext = Some [255, 255, 255],
          plaintext = Some [3, 10, 17, 24, 31, 38, 45, 52, 59, 66, 73, 80, 87, 94, 101, 108],
          sample_fixed = 0, expected_ciphertext = Some [255, 255, 255],
          remaining_num_traces = 1, rng_calls = 16, cycle = 1,
          project =
            [\<lparr>trace_wave = [0, 1], trace_plaintext = [170, 170, 170],
              trace_ciphertext = [255, 255, 255], trace_key = None\<rparr>],
          target_log = [Arm, Absorb [170, 170, 170], CaptureWaves, ReadCiphertext 2]\<rparr>"
proof -
  have l: "0 \<le> output_len toy_random_cfg" and n: "1 \<le> num_segments toy_random_cfg"
    and r: "0 < remaining_num_traces (initial_state toy_random_cfg [])"
    by (simp_all add: toy_random_cfg_fields initial_state_fields)
  have d: "read_ciphertext toy_faulty_env 0 2 = [0, 0]"
    "read_ciphertext toy_random_env 0 2 = [255, 255]"
    by (simp_all add: toy_defs)
  from digest_check [OF l n r toy_random_first_segments(1)]
       digest_check [OF l n r toy_random_first_segments(2)]
  show ?thesis
    by (simp add: toy_random_first_segments toy_random_cfg_fields initial_state_fields d
        Let_def)
qed

section \<open>The number of cycles and of traces\<close>

lemma capture_cycle_frame:
  "capture_cycle env cfg st = (r, st') \<Longrightarrow> cycle st' = Suc (cycle st)"
  by (auto simp: capture_cycle_def Let_def split: prod.splits option.splits
           dest!: capture_segments_frame)

lemma ceil_step:
  fixes R s :: int
  assumes "0 < R" and "1 \<le> s"
  shows "nat (- ((- (R - s)) div s)) + 1 = nat (- ((- R) div s))"
proof -
  have "- (R - s) = - R + s" by simp
  moreover have "(- R + s) div s = (- R) div s + 1"
    using assms div_add_self2 [of s "- R"] by simp
  ultimately have "(- (R - s)) div s = (- R) div s + 1" by simp
  moreover have "(- R) div s < 0"
    using assms by (simp add: div_neg_pos_less0)
  ultimately show ?thesis by simp
qed

lemma capture_loop_count:
  assumes "1 \<le> num_segments cfg" and "capture_loop env cfg st = (r, st')"
  shows "cycle st' \<le> cycle st + nat (- ((- remaining_num_traces st) div num_segments cfg))
       \<and> (r = None \<longrightarrow>
            cycle st' = cycle st + nat (- ((- remaining_num_traces st) div num_segments cfg))
            \<and> length (project st') = length (project st)
                + nat (- ((- remaining_num_traces st) div num_segments cfg))
                  * nat (num_segments cfg))"
  using assms
proof (induction env cfg st arbitrary: r st' rule: capture_loop.induct)
  case (1 env cfg st)
  let ?R = "remaining_num_traces st" and ?s = "num_segments cfg"
  show ?case
  proof (cases "0 < ?R")
    case False
    with "1.prems"(2) have "r = None" "st' = st"
      by (simp_all add: capture_loop.simps [of env cfg st])
    moreover from False "1.prems"(1) have "nat (- ((- ?R) div ?s)) = 0"
      by (simp add: pos_imp_zdiv_nonneg_iff)
    ultimately show ?thesis by simp
  next
    case True
    from True "1.prems"(1) have c1: "1 \<le> nat (- ((- ?R) div ?s))"
      using ceil_step [of ?R ?s] by linarith
    obtain r1 st1 where cyc: "capture_cycle env cfg st = (r1, st1)"
      by (cases "capture_cycle env cfg st")
    from capture_cycle_frame [OF cyc] have cy: "cycle st1 = Suc (cycle st)" .
    show ?thesis
    proof (cases r1)
      case (Some e)
      with True cyc "1.prems"(2) have "r = Some e" "st' = st1"
        by (simp_all add: capture_loop.simps [of env cfg st])
      with cy c1 show ?thesis by simp
    next
      case None
      with True cyc "1.prems"(2) have rest: "capture_loop env cfg st1 = (r, st')"
        by (simp add: capture_loop.simps [of env cfg st])
      from cyc None have ok: "capture_cycle env cfg st = (None, st1)" by simp
      note IH = "1.IH" [OF True cyc [symmetric] None "1.prems"(1) rest]
      from capture_cycle_ok(2) [OF ok] have rem: "remaining_num_traces st1 = ?R - ?s" .
      from capture_cycle_ok(4) [OF ok] have
        pr: "length (project st1) = length (project st) + nat ?s" .
      define c' where "c' = nat (- ((- (?R - ?s)) div ?s))"
      from ceil_step [OF True "1.prems"(1)] have
        st: "nat (- ((- ?R) div ?s)) = Suc c'" by (simp add: c'_def)
      from IH rem have le: "cycle st' \<le> cycle st1 + c'"
        and eq: "r = None \<Longrightarrow> cycle st' = cycle st1 + c'
                   \<and> length (project st') = length (project st1) + c' * nat ?s"
        by (simp_all add: c'_def)
      from le cy st have "cycle st' \<le> cycle st + nat (- ((- ?R) div ?s))" by simp
      moreover have "cycle st' = cycle st + nat (- ((- ?R) div ?s))
            \<and> length (project st') = length (project st) + nat (- ((- ?R) div ?s)) * nat ?s"
        if "r = None"
        using eq [OF that] cy pr st by simp
      ultimately show ?thesis by blast
    qed
  qed
qed

text \<open>
  C10, as the code has it: with \<open>num_traces\<close> and \<open>num_segments\<close> at least 1, the loop
  always ends, after at most \<open>\<lceil>num_traces / num_segments\<rceil>\<close> cycles. When no exception
  ended it, it ran exactly that many cycles and appended that many times \<open>num_segments\<close>
  traces, which is more than \<open>num_traces\<close> when \<open>num_segments\<close> does not divide
  \<open>num_traces\<close>. (\<open>capture_loop\<close> is a total function: its termination is proved where
  it is defined.)
\<close>

theorem capture_cycles:
  assumes "1 \<le> num_traces cfg" and "1 \<le> num_segments cfg"
    and "capture env cfg proj = (r, st')"
  shows "cycle st' \<le> nat \<lceil>real_of_int (num_traces cfg) / real_of_int (num_segments cfg)\<rceil>
     \<and> (r = None \<longrightarrow>
          cycle st' = nat \<lceil>real_of_int (num_traces cfg) / real_of_int (num_segments cfg)\<rceil>
          \<and> length (project st') = length proj
               + nat \<lceil>real_of_int (num_traces cfg) / real_of_int (num_segments cfg)\<rceil>
                 * nat (num_segments cfg)
          \<and> (\<not> num_segments cfg dvd num_traces cfg \<longrightarrow>
                num_traces cfg
                < \<lceil>real_of_int (num_traces cfg) / real_of_int (num_segments cfg)\<rceil>
                  * num_segments cfg))"
proof -
  let ?n = "num_traces cfg" and ?s = "num_segments cfg"
  have c: "\<lceil>real_of_int ?n / real_of_int ?s\<rceil> = - ((- ?n) div ?s)"
    by (rule ceiling_divide_eq_div)
  from assms(3) have loop: "capture_loop env cfg (initial_state cfg proj) = (r, st')"
    by (simp add: capture_def)
  have i: "cycle (initial_state cfg proj) = 0" "project (initial_state cfg proj) = proj"
    "remaining_num_traces (initial_state cfg proj) = ?n"
    by (simp_all add: initial_state_def)
  have strict: "?n < (- ((- ?n) div ?s)) * ?s" if "\<not> ?s dvd ?n"
  proof -
    from that have nd: "\<not> ?s dvd - ?n" by simp
    from assms(2) have "0 \<le> (- ?n) mod ?s" by simp
    with nd have "0 < (- ?n) mod ?s"
      by (metis dvd_eq_mod_eq_0 order_le_less)
    moreover have "(- ?n) div ?s * ?s + (- ?n) mod ?s = - ?n"
      by (rule div_mult_mod_eq)
    ultimately have "?n < - ((- ?n) div ?s * ?s)" by linarith
    then show ?thesis by simp
  qed
  from capture_loop_count [OF assms(2) loop] i c strict show ?thesis
    by simp
qed

theorem capture_cycles_witness:
  "1 \<le> num_traces toy_batch_cfg \<and> 1 \<le> num_segments toy_batch_cfg
   \<and> fst (capture toy_batch_env toy_batch_cfg []) = None
   \<and> \<not> num_segments toy_batch_cfg dvd num_traces toy_batch_cfg
   \<and> cycle (snd (capture toy_batch_env toy_batch_cfg [])) = 2
   \<and> length (project (snd (capture toy_batch_env toy_batch_cfg []))) = 4"
  using capture_cycles [OF _ _ toy_batch_run]
  by (simp add: toy_batch_run toy_batch_cfg_fields)

text \<open>
  The claim without the condition fails: when the device reports bytes that differ from
  the expected ones in the first cycle, the loop ends after one cycle and one trace, where
  \<open>\<lceil>num_traces / num_segments\<rceil>\<close> is 2.
\<close>

theorem capture_cycles_counterexample:
  "1 \<le> num_traces toy_random_cfg \<and> 1 \<le> num_segments toy_random_cfg
   \<and> nat \<lceil>real_of_int (num_traces toy_random_cfg) / real_of_int (num_segments toy_random_cfg)\<rceil> = 2
   \<and> fst (capture toy_faulty_env toy_random_cfg []) = Some AssertionError
   \<and> cycle (snd (capture toy_faulty_env toy_random_cfg [])) = 1
   \<and> length (project (snd (capture toy_faulty_env toy_random_cfg []))) = 1"
  by (simp add: toy_random_mismatch_run toy_random_cfg_fields)

section \<open>Properties kept by every segment and every cycle\<close>

lemma segment_loop_invariant:
  assumes "P None st"
    and step: "\<And>i s r s'. P None s \<Longrightarrow> segment env cfg waves i s = (r, s') \<Longrightarrow> P r s'"
    and "segment_loop env cfg waves is st = (r, st')"
  shows "P r st'"
  using assms(1,3)
proof (induction "is" arbitrary: st)
  case Nil
  then show ?case by simp
next
  case (Cons i "is")
  obtain r1 s1 where s: "segment env cfg waves i st = (r1, s1)"
    by (cases "segment env cfg waves i st")
  from step [OF Cons.prems(1) s] have p1: "P r1 s1" .
  show ?case
  proof (cases r1)
    case None
    with s Cons.prems(2) have "segment_loop env cfg waves is s1 = (r, st')" by simp
    with Cons.IH p1 None show ?thesis by simp
  next
    case (Some e)
    with s Cons.prems(2) have "r = Some e" "st' = s1" by simp_all
    with p1 Some show ?thesis by simp
  qed
qed

lemma capture_loop_invariant:
  assumes "P None st"
    and step: "\<And>s r s'. P None s \<Longrightarrow> capture_cycle env cfg s = (r, s') \<Longrightarrow> P r s'"
    and "capture_loop env cfg st = (r, st')"
  shows "P r st'"
  using assms(1,3,2)
proof (induction env cfg st arbitrary: r st' rule: capture_loop.induct)
  case (1 env cfg st)
  show ?case
  proof (cases "0 < remaining_num_traces st")
    case False
    with "1.prems" show ?thesis
      by (simp add: capture_loop.simps [of env cfg st])
  next
    case True
    obtain r1 s1 where c: "capture_cycle env cfg st = (r1, s1)"
      by (cases "capture_cycle env cfg st")
    from "1.prems"(3) [OF "1.prems"(1) c] have p1: "P r1 s1" .
    show ?thesis
    proof (cases r1)
      case None
      with True c "1.prems"(2) have rest: "capture_loop env cfg s1 = (r, st')"
        by (simp add: capture_loop.simps [of env cfg st])
      from p1 None have "P None s1" by simp
      from "1.IH" [OF True c [symmetric] None this rest "1.prems"(3)] show ?thesis .
    next
      case (Some e)
      with True c "1.prems"(2) have "r = Some e" "st' = s1"
        by (simp_all add: capture_loop.simps [of env cfg st])
      with p1 Some show ?thesis by simp
    qed
  qed
qed

section \<open>FVSR batch mode: the selector looks one sample ahead\<close>

lemma follows_selector_weaken:
  "follows_selector env cfg proj None s \<Longrightarrow> follows_selector env cfg proj r s"
  by (auto simp: follows_selector_def)

lemma follows_selector_cong:
  assumes "follows_selector env cfg proj r s"
    and "project s' = project s" and "sample_fixed s' = sample_fixed s"
    and "rng_calls s' = rng_calls s"
  shows "follows_selector env cfg proj r s'"
  using assms by (simp add: follows_selector_def)

lemma follows_selector_error:
  assumes "follows_selector env cfg proj None s" and "project s' = project s"
  shows "follows_selector env cfg proj (Some e) s'"
  using assms by (auto simp: follows_selector_def)

lemma segment_fvsr_batch_step:
  assumes "batch_mode cfg" and "capture_mode cfg = ''sha3_fvsr_data''"
    and "i < length waves" and "waves ! i \<noteq> []"
    and "segment env cfg waves i st = (r, st')"
  shows "r = None"
    and "project st' = project st @
           [\<lparr>trace_wave = waves ! i,
             trace_plaintext =
               (if sample_fixed st \<noteq> 0 then text_fixed cfg
                else randint_bytes env (rng_calls st) (nat (text_len_bytes cfg))),
             trace_ciphertext = sha3_256 env
               (if sample_fixed st \<noteq> 0 then text_fixed cfg
                else randint_bytes env (rng_calls st) (nat (text_len_bytes cfg))),
             trace_key = None\<rparr>]"
    and "sample_fixed st' =
           uint (randint_bytes env
                   (rng_calls st + (if sample_fixed st \<noteq> 0 then 0 else nat (text_len_bytes cfg)))
                   16 ! 0 AND 1)"
    and "rng_calls st' =
           rng_calls st + (if sample_fixed st \<noteq> 0 then 0 else nat (text_len_bytes cfg)) + 16"
proof -
  from assms(3,4) have w: "\<not> length waves \<le> i" "1 \<le> length (waves ! i)"
    by (simp_all add: Suc_le_eq)
  from assms(1,2,5) w have "r = None \<and> st' =
      st\<lparr>text_var := (if sample_fixed st \<noteq> 0 then text_fixed cfg
                        else randint_bytes env (rng_calls st) (nat (text_len_bytes cfg))),
         ciphertext := Some (sha3_256 env
                       (if sample_fixed st \<noteq> 0 then text_fixed cfg
                        else randint_bytes env (rng_calls st) (nat (text_len_bytes cfg)))),
         sample_fixed := uint (randint_bytes env
                   (rng_calls st + (if sample_fixed st \<noteq> 0 then 0 else nat (text_len_bytes cfg)))
                   16 ! 0 AND 1),
         rng_calls := rng_calls st
                   + (if sample_fixed st \<noteq> 0 then 0 else nat (text_len_bytes cfg)) + 16,
         project := project st @
           [\<lparr>trace_wave = waves ! i,
             trace_plaintext =
               (if sample_fixed st \<noteq> 0 then text_fixed cfg
                else randint_bytes env (rng_calls st) (nat (text_len_bytes cfg))),
             trace_ciphertext = sha3_256 env
               (if sample_fixed st \<noteq> 0 then text_fixed cfg
                else randint_bytes env (rng_calls st) (nat (text_len_bytes cfg))),
             trace_key = None\<rparr>],
         expected_ciphertext :=
           Some (fold_expected True (expected_ciphertext st)
                  (sha3_256 env
                    (if sample_fixed st \<noteq> 0 then text_fixed cfg
                     else randint_bytes env (rng_calls st) (nat (text_len_bytes cfg)))))\<rparr>"
    by (cases "sample_fixed st = 0")
       (auto simp: segment_def call_generate_ref_crypto_def generate_ref_crypto_def Let_def)
  then show "r = None"
    and "project st' = project st @
           [\<lparr>trace_wave = waves ! i,
             trace_plaintext =
               (if sample_fixed st \<noteq> 0 then text_fixed cfg
                else randint_bytes env (rng_calls st) (nat (text_len_bytes cfg))),
             trace_ciphertext = sha3_256 env
               (if sample_fixed st \<noteq> 0 then text_fixed cfg
                else randint_bytes env (rng_calls st) (nat (text_len_bytes cfg))),
             trace_key = None\<rparr>]"
    and "sample_fixed st' =
           uint (randint_bytes env
                   (rng_calls st + (if sample_fixed st \<noteq> 0 then 0 else nat (text_len_bytes cfg)))
                   16 ! 0 AND 1)"
    and "rng_calls st' =
           rng_calls st + (if sample_fixed st \<noteq> 0 then 0 else nat (text_len_bytes cfg)) + 16"
    by simp_all
qed

lemma segment_no_wave:
  assumes "\<not> (i < length waves \<and> waves ! i \<noteq> [])"
    and "segment env cfg waves i st = (r, st')"
  shows "r \<noteq> None \<and> project st' = project st"
  using assms
  by (auto simp: segment_def Let_def split: prod.splits option.splits if_splits
           dest!: call_generate_ref_crypto_frame)

lemma segment_follows_selector:
  assumes b: "batch_mode cfg" and m: "capture_mode cfg = ''sha3_fvsr_data''"
    and inv: "follows_selector env cfg proj None s"
    and seg: "segment env cfg waves i s = (r, s')"
  shows "follows_selector env cfg proj r s'"
proof (cases "i < length waves \<and> waves ! i \<noteq> []")
  case False
  from segment_no_wave [OF False seg] obtain e where "r = Some e" "project s' = project s"
    by auto
  with follows_selector_error [OF inv] show ?thesis by simp
next
  case True
  from inv obtain new where new: "project s = proj @ new"
    "\<forall>i < length new. trace_plaintext (new ! i) = fvsr_stimulus env cfg i"
    "(sample_fixed s, rng_calls s) = fvsr_selector env cfg (length new)"
    by (auto simp: follows_selector_def)
  define n where "n = (if sample_fixed s \<noteq> 0 then 0 else nat (text_len_bytes cfg))"
  define p where "p = (if sample_fixed s \<noteq> 0 then text_fixed cfg
                       else randint_bytes env (rng_calls s) (nat (text_len_bytes cfg)))"
  define sel' where "sel' = uint (randint_bytes env (rng_calls s + n) 16 ! 0 AND 1)"
  from True have w: "i < length waves" "waves ! i \<noteq> []" by simp_all
  note step = segment_fvsr_batch_step [OF b m w seg]
  from step(1) have r: "r = None" .
  from step(2) have pr: "project s' = project s @
               [\<lparr>trace_wave = waves ! i, trace_plaintext = p,
                 trace_ciphertext = sha3_256 env p, trace_key = None\<rparr>]"
    by (simp add: p_def)
  from step(3) have sf: "sample_fixed s' = sel'" by (simp add: sel'_def n_def)
  from step(4) have rc: "rng_calls s' = rng_calls s + n + 16" by (simp add: n_def)
  from new(3) [symmetric] have stim: "fvsr_stimulus env cfg (length new) = p"
    by (simp add: fvsr_stimulus_def p_def)
  from new(3) [symmetric] have nxt: "fvsr_selector env cfg (Suc (length new)) = (sel', rng_calls s + n + 16)"
    by (simp add: n_def sel'_def Let_def)
  let ?t = "\<lparr>trace_wave = waves ! i, trace_plaintext = p,
             trace_ciphertext = sha3_256 env p, trace_key = None\<rparr>"
  have "project s' = proj @ (new @ [?t])" using pr new(1) by simp
  moreover have "\<forall>j < length (new @ [?t]). trace_plaintext ((new @ [?t]) ! j) = fvsr_stimulus env cfg j"
    using new(2) stim by (auto simp: nth_append less_Suc_eq)
  moreover have "(sample_fixed s', rng_calls s') = fvsr_selector env cfg (length (new @ [?t]))"
    using sf rc nxt by simp
  ultimately show ?thesis
    unfolding follows_selector_def r by blast
qed

lemma trigger_batch_frame:
  assumes "batch_mode cfg" and "trigger env cfg st = (r, st')"
  shows "project st' = project st \<and> sample_fixed st' = sample_fixed st
         \<and> rng_calls st' = rng_calls st"
  using assms by (auto simp: trigger_def split: sum.splits)

lemma capture_cycle_follows_selector:
  assumes b: "batch_mode cfg" and m: "capture_mode cfg = ''sha3_fvsr_data''"
    and inv: "follows_selector env cfg proj None s"
    and cyc: "capture_cycle env cfg s = (r, s')"
  shows "follows_selector env cfg proj r s'"
proof -
  obtain r1 s1 where tr: "trigger env cfg (s\<lparr>target_log := target_log s @ [Arm],
                             cycle := Suc (cycle s)\<rparr>) = (r1, s1)"
    by (cases "trigger env cfg (s\<lparr>target_log := target_log s @ [Arm], cycle := Suc (cycle s)\<rparr>)")
  from trigger_batch_frame [OF b tr] have f1: "project s1 = project s"
    "sample_fixed s1 = sample_fixed s" "rng_calls s1 = rng_calls s" by simp_all
  have i1: "follows_selector env cfg proj None s1"
    by (rule follows_selector_cong [OF inv f1])
  obtain r3 s3 where segs: "capture_segments env cfg s = (r3, s3)"
    by (cases "capture_segments env cfg s")
  have i3: "follows_selector env cfg proj r3 s3"
  proof (cases r1)
    case (Some e)
    with tr segs have "r3 = Some e" "s3 = s1" by (simp_all add: capture_segments_def)
    with follows_selector_weaken [OF i1] show ?thesis by simp
  next
    case None
    let ?waves = "capture_and_transfer_waves env (cycle s)"
    let ?s2 = "s1\<lparr>target_log := target_log s1 @ [CaptureWaves]\<rparr>"
    have i2: "follows_selector env cfg proj None ?s2"
      by (rule follows_selector_cong [OF i1]) simp_all
    show ?thesis
    proof (cases "int (length ?waves) \<noteq> num_segments cfg")
      case True
      with None tr segs have "s3 = ?s2" by (simp add: capture_segments_def Let_def)
      with follows_selector_weaken [OF i2] show ?thesis by simp
    next
      case False
      with None tr segs have loop: "segment_loop env cfg ?waves [0 ..< nat (num_segments cfg)]
                 (?s2\<lparr>expected_ciphertext := None\<rparr>) = (r3, s3)"
        by (simp add: capture_segments_def Let_def)
      have "follows_selector env cfg proj None (?s2\<lparr>expected_ciphertext := None\<rparr>)"
        by (rule follows_selector_cong [OF i2]) simp_all
      from segment_loop_invariant [where P = "follows_selector env cfg proj", OF this _ loop]
        segment_follows_selector [OF b m]
      show ?thesis by blast
    qed
  qed
  show ?thesis
  proof (cases r3)
    case (Some e)
    with segs cyc have "r = Some e" "s' = s3" by (simp_all add: capture_cycle_def)
    with i3 Some show ?thesis by simp
  next
    case None
    with segs cyc have "project s' = project s3 \<and> sample_fixed s' = sample_fixed s3
        \<and> rng_calls s' = rng_calls s3"
      by (auto simp: capture_cycle_def Let_def split: option.splits)
    with follows_selector_cong [of env cfg proj None s3 s'] i3 None
    have "follows_selector env cfg proj None s'" by simp
    then show ?thesis by (rule follows_selector_weaken)
  qed
qed

lemma fvsr_stimulus_first:
  "fvsr_stimulus env cfg 0 = randint_bytes env 0 (nat (text_len_bytes cfg))"
  by (simp add: fvsr_stimulus_def)

lemma fvsr_stimulus_next:
  "fvsr_stimulus env cfg (Suc i) =
     (case fvsr_selector env cfg i of
        (sel, k) \<Rightarrow>
          (let n = (if sel \<noteq> 0 then 0 else nat (text_len_bytes cfg));
               dummy = randint_bytes env (k + n) 16
           in if uint (dummy ! 0 AND 1) \<noteq> 0 then text_fixed cfg
              else randint_bytes env (k + n + 16) (nat (text_len_bytes cfg))))"
  by (simp add: fvsr_stimulus_def Let_def split: prod.splits)

text \<open>
  C3, as the code has it: in FVSR batch mode, whatever way the session ends, the traces it
  appended carry the stimuli \<open>fvsr_stimulus 0, 1, 2, \<dots>\<close> in order. So the first sample
  of a session uses the random value (\<open>text_len_bytes\<close> fresh bytes: the selector starts
  at 0), and sample \<open>i + 1\<close> uses the fixed message exactly when the low bit of the first
  dummy byte drawn while processing sample \<open>i\<close> is set, fresh random bytes otherwise:
  the selector evaluated for sample \<open>i\<close> decides sample \<open>i + 1\<close>, within a batch and
  from one batch to the next.
\<close>

theorem fvsr_batch_lookahead:
  assumes "batch_mode cfg" and "capture_mode cfg = ''sha3_fvsr_data''"
    and "capture env cfg proj = (r, st')"
  shows "\<exists>new. project st' = proj @ new
           \<and> (\<forall>i < length new. trace_plaintext (new ! i) = fvsr_stimulus env cfg i)
           \<and> (new \<noteq> [] \<longrightarrow>
                trace_plaintext (new ! 0) = randint_bytes env 0 (nat (text_len_bytes cfg)))
           \<and> (\<forall>i. Suc i < length new \<longrightarrow>
                trace_plaintext (new ! Suc i) =
                (case fvsr_selector env cfg i of
                   (sel, k) \<Rightarrow>
                     (let n = (if sel \<noteq> 0 then 0 else nat (text_len_bytes cfg));
                          dummy = randint_bytes env (k + n) 16
                      in if uint (dummy ! 0 AND 1) \<noteq> 0 then text_fixed cfg
                         else randint_bytes env (k + n + 16) (nat (text_len_bytes cfg)))))"
proof -
  have "follows_selector env cfg proj None (initial_state cfg proj)"
    unfolding follows_selector_def
    by (rule exI [of _ "[]"]) (simp add: initial_state_def)
  then have "follows_selector env cfg proj r st'"
  proof (rule capture_loop_invariant [where P = "follows_selector env cfg proj", OF _ _
      assms(3) [unfolded capture_def]])
    fix s r s'
    assume "follows_selector env cfg proj None s" and "capture_cycle env cfg s = (r, s')"
    then show "follows_selector env cfg proj r s'"
      by (rule capture_cycle_follows_selector [OF assms(1,2)])
  qed
  then obtain new where new: "project st' = proj @ new"
    "\<forall>i < length new. trace_plaintext (new ! i) = fvsr_stimulus env cfg i"
    unfolding follows_selector_def by blast
  from new(2) have first: "new \<noteq> [] \<longrightarrow>
      trace_plaintext (new ! 0) = randint_bytes env 0 (nat (text_len_bytes cfg))"
    by (simp add: fvsr_stimulus_first)
  from new(2) have nxt: "\<forall>i. Suc i < length new \<longrightarrow>
                trace_plaintext (new ! Suc i) =
                (case fvsr_selector env cfg i of
                   (sel, k) \<Rightarrow>
                     (let n = (if sel \<noteq> 0 then 0 else nat (text_len_bytes cfg));
                          dummy = randint_bytes env (k + n) 16
                      in if uint (dummy ! 0 AND 1) \<noteq> 0 then text_fixed cfg
                         else randint_bytes env (k + n + 16) (nat (text_len_bytes cfg))))"
    by (simp add: fvsr_stimulus_next)
  from new first nxt show ?thesis by blast
qed

theorem fvsr_batch_lookahead_witness:
  "batch_mode toy_batch_cfg \<and> capture_mode toy_batch_cfg = ''sha3_fvsr_data''
   \<and> fst (capture toy_batch_env toy_batch_cfg []) = None
   \<and> map trace_plaintext (project (snd (capture toy_batch_env toy_batch_cfg [])))
       = map (fvsr_stimulus toy_batch_env toy_batch_cfg) [0, 1, 2, 3]"
  using fvsr_batch_lookahead [OF _ _ toy_batch_run] toy_batch_stimuli
  by (simp add: toy_batch_run toy_batch_cfg_fields)

text \<open>
  The claim's second half fails: the first sample of the session in FVSR batch mode has
  the plaintext \<open>[3, 10, 17]\<close>, the first three bytes of the random stream, not the
  fixed message.
\<close>

theorem fvsr_first_sample_counterexample:
  "batch_mode toy_batch_cfg \<and> capture_mode toy_batch_cfg = ''sha3_fvsr_data''
   \<and> text_fixed toy_batch_cfg = [170, 170, 170]
   \<and> trace_plaintext (project (snd (capture toy_batch_env toy_batch_cfg [])) ! 0) = [3, 10, 17]
   \<and> trace_plaintext (project (snd (capture toy_batch_env toy_batch_cfg [])) ! 0)
       \<noteq> text_fixed toy_batch_cfg"
  by (simp add: toy_batch_run toy_batch_cfg_fields)

section \<open>Pure-random mode: the plaintext never changes\<close>

lemma resubmits_fixed_any:
  "resubmits_fixed cfg proj r s \<Longrightarrow> resubmits_fixed cfg proj r' s"
  unfolding resubmits_fixed_def .

lemma resubmits_fixed_cong:
  assumes "resubmits_fixed cfg proj r s"
    and "text_var s' = text_var s" and "project s' = project s"
    and "target_log s' = target_log s"
  shows "resubmits_fixed cfg proj r' s'"
  using assms(1) unfolding resubmits_fixed_def assms(2,3,4) .

lemma segment_resubmits_fixed:
  assumes "capture_mode cfg = ''sha3_random''" and "\<not> batch_mode cfg"
    and "resubmits_fixed cfg proj None s" and "segment env cfg waves i s = (r, s')"
  shows "resubmits_fixed cfg proj r s'"
  using assms
  by (auto simp: resubmits_fixed_def segment_def call_generate_ref_crypto_def
        generate_ref_crypto_def Let_def split: if_splits)

lemma capture_segments_random:
  assumes "capture_mode cfg = ''sha3_random''" and "\<not> batch_mode cfg"
  shows "capture_segments env cfg s =
     (if int (length (capture_and_transfer_waves env (cycle s))) \<noteq> num_segments cfg
      then (Some AssertionError,
            s\<lparr>cycle := Suc (cycle s),
              target_log := target_log s @ [Arm, Absorb (text_var s), CaptureWaves]\<rparr>)
      else segment_loop env cfg (capture_and_transfer_waves env (cycle s))
             [0 ..< nat (num_segments cfg)]
             (s\<lparr>cycle := Suc (cycle s),
               target_log := target_log s @ [Arm, Absorb (text_var s), CaptureWaves],
               expected_ciphertext := None\<rparr>))"
  using assms by (simp add: capture_segments_def trigger_def Let_def)

lemma capture_cycle_resubmits_fixed:
  assumes m: "capture_mode cfg = ''sha3_random''" and b: "\<not> batch_mode cfg"
    and inv: "resubmits_fixed cfg proj None s" and cyc: "capture_cycle env cfg s = (r, s')"
  shows "resubmits_fixed cfg proj r s'"
proof -
  let ?s2 = "s\<lparr>cycle := Suc (cycle s),
               target_log := target_log s @ [Arm, Absorb (text_var s), CaptureWaves]\<rparr>"
  let ?waves = "capture_and_transfer_waves env (cycle s)"
  have i2: "resubmits_fixed cfg proj None ?s2"
    using inv by (auto simp: resubmits_fixed_def)
  obtain r3 s3 where segs: "capture_segments env cfg s = (r3, s3)"
    by (cases "capture_segments env cfg s")
  have eq: "(r3, s3) =
     (if int (length ?waves) \<noteq> num_segments cfg then (Some AssertionError, ?s2)
      else segment_loop env cfg ?waves [0 ..< nat (num_segments cfg)]
             (?s2\<lparr>expected_ciphertext := None\<rparr>))"
    unfolding segs [symmetric] by (rule capture_segments_random [OF m b])
  have i3: "resubmits_fixed cfg proj r3 s3"
  proof (cases "int (length ?waves) \<noteq> num_segments cfg")
    case True
    with eq have s3: "s3 = ?s2" by simp
    from i2 have "resubmits_fixed cfg proj r3 ?s2" by (rule resubmits_fixed_any)
    then show ?thesis by (simp only: s3)
  next
    case False
    with eq have loop: "segment_loop env cfg ?waves [0 ..< nat (num_segments cfg)]
                 (?s2\<lparr>expected_ciphertext := None\<rparr>) = (r3, s3)"
      by simp
    have "resubmits_fixed cfg proj None (?s2\<lparr>expected_ciphertext := None\<rparr>)"
      by (rule resubmits_fixed_cong [OF i2]) simp_all
    then show ?thesis
    proof (rule segment_loop_invariant [where P = "resubmits_fixed cfg proj", OF _ _ loop])
      fix i s r s'
      assume "resubmits_fixed cfg proj None s" and "segment env cfg ?waves i s = (r, s')"
      then show "resubmits_fixed cfg proj r s'"
        by (rule segment_resubmits_fixed [OF m b])
    qed
  qed
  show ?thesis
  proof (cases r3)
    case (Some e)
    with segs cyc have "r = Some e" "s' = s3" by (simp_all add: capture_cycle_def)
    with i3 Some show ?thesis by simp
  next
    case None
    let ?s4 = "s3\<lparr>target_log := target_log s3 @ [ReadCiphertext (output_len cfg)]\<rparr>"
    from None segs cyc have "s' = ?s4
        \<or> s' = ?s4\<lparr>remaining_num_traces := remaining_num_traces ?s4 - num_segments cfg\<rparr>"
      by (auto simp: capture_cycle_def Let_def split: option.splits)
    with i3 show ?thesis
      by (auto simp: resubmits_fixed_def)
  qed
qed

lemma random_mode_resubmits_fixed:
  assumes "capture_mode cfg = ''sha3_random''" and "\<not> batch_mode cfg"
    and "capture env cfg proj = (r, st')"
  shows "text_var st' = text_fixed cfg
      \<and> (\<exists>new. project st' = proj @ new \<and> (\<forall>t \<in> set new. trace_plaintext t = text_fixed cfg))
      \<and> (\<forall>b. Absorb b \<in> set (target_log st') \<longrightarrow> b = text_fixed cfg)"
proof -
  have "resubmits_fixed cfg proj None (initial_state cfg proj)"
    using assms(2) by (simp add: resubmits_fixed_def initial_state_def)
  from capture_loop_invariant [where P = "resubmits_fixed cfg proj", OF this _
      assms(3) [unfolded capture_def]] capture_cycle_resubmits_fixed [OF assms(1,2)]
  have "resubmits_fixed cfg proj r st'" by blast
  then show ?thesis by (simp add: resubmits_fixed_def)
qed

text \<open>
  C2 at a concrete run: pure-random mode, not batch, two traces, a device that reports the
  right bytes. Both cycles send the fixed message to the device and store it as the
  plaintext; the 16 bytes drawn after each trace end in the local \<open>plaintext\<close>, which
  nothing reads. (\<open>random_mode_resubmits_fixed\<close> above says the same of every run in
  this mode.)
\<close>

theorem random_mode_repeats_plaintext:
  "capture_mode toy_random_cfg = ''sha3_random'' \<and> \<not> batch_mode toy_random_cfg
   \<and> fst (capture toy_random_env toy_random_cfg []) = None
   \<and> map trace_plaintext (project (snd (capture toy_random_env toy_random_cfg [])))
       = [text_fixed toy_random_cfg, text_fixed toy_random_cfg]
   \<and> target_log (snd (capture toy_random_env toy_random_cfg []))
       = [Arm, Absorb (text_fixed toy_random_cfg), CaptureWaves, ReadCiphertext 2,
          Arm, Absorb (text_fixed toy_random_cfg), CaptureWaves, ReadCiphertext 2]
   \<and> plaintext (snd (capture toy_random_env toy_random_cfg []))
       = Some (randint_bytes toy_random_env 16 16)"
  by (simp add: toy_random_run toy_random_cfg_fields)
     (simp add: toy_random_env_def toy_env_def randint_bytes_def upt_rec)

section \<open>FVSR non-batch mode: the first cycle raises\<close>

lemma fvsr_nonbatch_raises:
  assumes "capture_mode cfg = ''sha3_fvsr_data''" and "\<not> batch_mode cfg"
    and "0 < num_traces cfg"
  shows "capture env cfg proj =
           (Some AttributeError,
            (initial_state cfg proj)\<lparr>cycle := 1, target_log := [Arm]\<rparr>)"
proof -
  have r: "0 < remaining_num_traces (initial_state cfg proj)"
    using assms(3) by (simp add: initial_state_def)
  have "capture_cycle env cfg (initial_state cfg proj) =
          (Some AttributeError, (initial_state cfg proj)\<lparr>cycle := 1, target_log := [Arm]\<rparr>)"
    using assms(1,2)
    by (simp add: capture_cycle_def capture_segments_def trigger_def call_generate_ref_crypto_def
        generate_ref_crypto_def initial_state_def)
  with r show ?thesis
    by (simp add: capture_def capture_loop.simps [of env cfg "initial_state cfg proj"])
qed

text \<open>
  C5 at a concrete run: FVSR mode, not batch, two traces. The first cycle arms the scope
  and raises AttributeError in \<open>generate_ref_crypto\<close>: nothing is sent to the device, no
  trace is stored, no selector is computed. (\<open>fvsr_nonbatch_raises\<close> above says the same
  of every run in this mode with at least one trace to capture.)
\<close>

theorem fvsr_nonbatch_attribute_error:
  "capture_mode toy_fvsr_cfg = ''sha3_fvsr_data'' \<and> \<not> batch_mode toy_fvsr_cfg
   \<and> 1 \<le> num_traces toy_fvsr_cfg
   \<and> fst (capture toy_random_env toy_fvsr_cfg []) = Some AttributeError
   \<and> project (snd (capture toy_random_env toy_fvsr_cfg [])) = []
   \<and> target_log (snd (capture toy_random_env toy_fvsr_cfg [])) = [Arm]"
  by (simp add: toy_fvsr_run toy_fvsr_cfg_fields)

end
